theory Spec2Isabelle
  imports
    Main
    "HOL-Library.Char_ord"
    "HOL-Library.List_Lexorder"
    "HOL-Library.Product_Lexorder"
    "HOL-Library.Sublist"
begin

section \<open>Strings\<close>

text \<open>
  Identifiers, index hints, names and timestamps are Python \<open>str\<close> values; they are
  modelled as \<open>string\<close> and compared as Python compares them, lexicographically by
  character code. On these characters \<open>\d\<close> is exactly \<open>0\<close> to \<open>9\<close>. Message contents
  are kept as lists of code points (\<open>utext\<close>), since the emoji ranges of the source lie
  beyond the characters of \<open>string\<close>.
\<close>

type_synonym utext = "nat list"

definition startswith :: "'a list \<Rightarrow> 'a list \<Rightarrow> bool" where
  \<comment> \<open>\<open>s.startswith(p)\<close>\<close>
  "startswith s p = (take (length p) s = p)"

definition endswith :: "'a list \<Rightarrow> 'a list \<Rightarrow> bool" where
  \<comment> \<open>\<open>s.endswith(p)\<close>\<close>
  "endswith s p = (length p \<le> length s \<and> drop (length s - length p) s = p)"

fun find_sub :: "'a list \<Rightarrow> 'a list \<Rightarrow> nat option" where
  \<comment> \<open>the index of the first occurrence of \<open>sep\<close> in \<open>s\<close>, as \<open>s.find(sep)\<close> finds it\<close>
  "find_sub sep [] = (if sep = [] then Some 0 else None)"
| "find_sub sep (c # s) =
     (if startswith (c # s) sep then Some 0 else map_option Suc (find_sub sep s))"

definition contains :: "'a list \<Rightarrow> 'a list \<Rightarrow> bool" where
  \<comment> \<open>\<open>sep in s\<close>\<close>
  "contains sep s = (find_sub sep s \<noteq> None)"

definition split1 :: "'a list \<Rightarrow> 'a list \<Rightarrow> 'a list list" where
  \<comment> \<open>\<open>s.split(sep, 1)\<close>: at most one split, at the first occurrence\<close>
  "split1 sep s =
     (case find_sub sep s of
        None \<Rightarrow> [s]
      | Some i \<Rightarrow> [take i s, drop (i + length sep) s])"

fun replace_aux :: "'a list \<Rightarrow> 'a list \<Rightarrow> nat \<Rightarrow> 'a list \<Rightarrow> 'a list" where
  \<comment> \<open>the counter is the number of characters of the current occurrence still to skip\<close>
  "replace_aux old new k [] = []"
| "replace_aux old new (Suc k) (c # s) = replace_aux old new k s"
| "replace_aux old new 0 (c # s) =
     (if startswith (c # s) old then new @ replace_aux old new (length old - 1) s
      else c # replace_aux old new 0 s)"

definition replace :: "'a list \<Rightarrow> 'a list \<Rightarrow> 'a list \<Rightarrow> 'a list" where
  \<comment> \<open>\<open>s.replace(old, new)\<close> for a non-empty \<open>old\<close>: every occurrence, scanning from
      the left without overlap\<close>
  "replace s old new = replace_aux old new 0 s"

definition or_else :: "'a list \<Rightarrow> 'a list \<Rightarrow> 'a list" where
  \<comment> \<open>Python's \<open>a or b\<close> on strings: the empty string is false\<close>
  "or_else a b = (if a \<noteq> [] then a else b)"

definition second_component :: "string \<Rightarrow> string" where
  \<comment> \<open>\<open>name.split("/")[1]\<close> for a name that has a \<open>/\<close>: what lies between the first
      \<open>/\<close> and the next one (or the end)\<close>
  "second_component path =
     takeWhile (\<lambda>c. c \<noteq> CHR ''/'') (drop 1 (dropWhile (\<lambda>c. c \<noteq> CHR ''/'') path))"


section \<open>Regular expressions, as the backtracking engine runs them\<close>

text \<open>
  A piece of a pattern, applied to the text still to be read, returns the ways it can
  match (what is left after each), in the order backtracking tries them. A sequence of
  pieces is a list comprehension over these lists, and the match that \<open>re.match\<close>
  reports is the first element of the result.
\<close>

definition rx_literal :: "'a list \<Rightarrow> 'a list \<Rightarrow> 'a list list" where
  \<comment> \<open>literal text: one way, or none\<close>
  "rx_literal p s = (if startswith s p then [drop (length p) s] else [])"

definition rx_plus_greedy :: "('a \<Rightarrow> bool) \<Rightarrow> 'a list \<Rightarrow> 'a list list" where
  \<comment> \<open>\<open>[class]+\<close>: as many characters as possible first, one fewer at each backtrack\<close>
  "rx_plus_greedy P s =
     map (\<lambda>k. drop k s) (rev [1 ..< Suc (length (takeWhile P s))])"

definition rx_plus_lazy :: "('a \<Rightarrow> bool) \<Rightarrow> 'a list \<Rightarrow> ('a list \<times> 'a list) list" where
  \<comment> \<open>\<open>([class]+?)\<close>: one character first, one more at each backtrack; the group's
      text is returned with what is left\<close>
  "rx_plus_lazy P s =
     map (\<lambda>k. (take k s, drop k s)) [1 ..< Suc (length (takeWhile P s))]"

definition rx_optional :: "('a list \<Rightarrow> 'a list list) \<Rightarrow> 'a list \<Rightarrow> 'a list list" where
  \<comment> \<open>\<open>(...)?\<close>: the piece first, then nothing\<close>
  "rx_optional r s = r s @ [s]"

definition rx_alt :: "('a list \<Rightarrow> 'b list) list \<Rightarrow> 'a list \<Rightarrow> 'b list" where
  \<comment> \<open>\<open>a|b|c\<close>: the alternatives from left to right\<close>
  "rx_alt rs s = concat (map (\<lambda>r. r s) rs)"

fun findall_aux :: "('a list \<Rightarrow> nat option) \<Rightarrow> nat \<Rightarrow> 'a list \<Rightarrow> 'a list list" where
  \<comment> \<open>\<open>match_at s\<close> is the length of the match that starts at the head of \<open>s\<close>; the
      counter is the number of characters of the last match still to skip\<close>
  "findall_aux match_at k [] = []"
| "findall_aux match_at (Suc k) (c # s) = findall_aux match_at k s"
| "findall_aux match_at 0 (c # s) =
     (case match_at (c # s) of
        None \<Rightarrow> findall_aux match_at 0 s
      | Some n \<Rightarrow> take n (c # s) # findall_aux match_at (n - 1) s)"

definition findall :: "('a list \<Rightarrow> nat option) \<Rightarrow> 'a list \<Rightarrow> 'a list list" where
  \<comment> \<open>\<open>pattern.findall(s)\<close> for a pattern without groups that matches no empty text:
      the matches from left to right, without overlap\<close>
  "findall match_at s = findall_aux match_at 0 s"

definition first_match_length :: "'a list \<Rightarrow> 'a list list \<Rightarrow> nat option" where
  \<comment> \<open>from the ways a pattern matches at the head of \<open>s\<close>, the length of the first\<close>
  "first_match_length s ways =
     (case ways of [] \<Rightarrow> None | left # _ \<Rightarrow> Some (length s - length left))"


section \<open>Channel resolver (lines 65 to 83 of \<open>parse_package\<close>)\<close>

definition newline :: char where
  "newline = CHR 0x0A"

definition is_digit :: "char \<Rightarrow> bool" where
  \<comment> \<open>\<open>\d\<close>\<close>
  "is_digit c = (CHR ''0'' \<le> c \<and> c \<le> CHR ''9'')"

definition rx_end :: "string \<Rightarrow> bool" where
  \<comment> \<open>\<open>$\<close>: at the end of the string, or just before a newline that ends it\<close>
  "rx_end s = (s = [] \<or> s = [newline])"

definition dm_matches :: "string \<Rightarrow> string list" where
  \<comment> \<open>\<open>Direct Message with (.+?)(?:#\d+)?$\<close>: group 1 of every way the pattern
      matches at the start of the hint; \<open>.\<close> is any character but a newline\<close>
  "dm_matches idx_val =
     [friend.
        s1 \<leftarrow> rx_literal ''Direct Message with '' idx_val,
        (friend, s2) \<leftarrow> rx_plus_lazy (\<lambda>c. c \<noteq> newline) s1,
        s3 \<leftarrow> rx_optional
               (\<lambda>s. [s''. s' \<leftarrow> rx_literal ''#'' s, s'' \<leftarrow> rx_plus_greedy is_digit s']) s2,
        rx_end s3]"

definition dm_match :: "string \<Rightarrow> string option" where
  \<comment> \<open>\<open>m.group(1)\<close> when \<open>re.match\<close> finds a match, \<open>None\<close> when it does not\<close>
  "dm_match idx_val =
     (case dm_matches idx_val of [] \<Rightarrow> None | friend # _ \<Rightarrow> Some friend)"

definition resolve ::
  "string \<Rightarrow> string \<Rightarrow> string \<Rightarrow> string \<Rightarrow> string \<Rightarrow> string \<times> string" where
  \<comment> \<open>\<open>(display, group)\<close> from the channel type, the raw channel name, the guild name,
      the channel id and the hint of the index\<close>
  "resolve ch_type ch_name guild_name channel_id idx_val =
     (if ch_type = ''DM'' then
        (let friend_name =
               (case dm_match idx_val of
                  Some friend \<Rightarrow> friend
                | None \<Rightarrow> replace idx_val ''Direct Message with '' '''')
         in (friend_name, ''Direct Messages''))
      else if ch_type = ''GROUP_DM'' then
        (or_else ch_name (or_else idx_val ''Group DM''), ''Group DMs'')
      else if contains '' in '' idx_val then
        (let parts = split1 '' in '' idx_val
         in (''#'' @ parts ! 0, parts ! 1))
      else
        (if ch_name \<noteq> [] then ''#'' @ ch_name else ''#'' @ channel_id,
         or_else guild_name ''Unknown Server''))"


section \<open>Dates and times (\<open>datetime.strptime\<close>, \<open>weekday\<close>, differences in days)\<close>

datatype error =
    ValueError         \<comment> \<open>raised by \<open>datetime.strptime\<close>\<close>
  | JSONDecodeError    \<comment> \<open>raised by \<open>json.load\<close>\<close>
  | ZipOpenError       \<comment> \<open>raised by \<open>zipfile.ZipFile\<close> when the container cannot be opened\<close>

record datetime =
  year :: nat
  month :: nat
  day :: nat
  hour :: nat
  minute :: nat
  second :: nat

definition is_space :: "char \<Rightarrow> bool" where
  \<comment> \<open>\<open>\s\<close>: the characters of \<open>string\<close> that Python counts as whitespace\<close>
  "is_space c = ((of_char c :: nat) \<in> {9, 10, 11, 12, 13, 28, 29, 30, 31, 32, 133, 160})"

definition digit_value :: "char \<Rightarrow> nat" where
  "digit_value c = of_char c - 48"

definition rx_digit :: "nat \<Rightarrow> nat \<Rightarrow> string \<Rightarrow> (nat \<times> string) list" where
  \<comment> \<open>one digit between \<open>lo\<close> and \<open>hi\<close>, with its value\<close>
  "rx_digit lo hi s =
     (case s of
        [] \<Rightarrow> []
      | c # r \<Rightarrow>
          if is_digit c \<and> lo \<le> digit_value c \<and> digit_value c \<le> hi
          then [(digit_value c, r)] else [])"

definition rx_digit2 :: "nat \<Rightarrow> nat \<Rightarrow> nat \<Rightarrow> nat \<Rightarrow> string \<Rightarrow> (nat \<times> string) list" where
  \<comment> \<open>two digits, the first between \<open>l1\<close> and \<open>h1\<close>, the second between \<open>l2\<close> and \<open>h2\<close>\<close>
  "rx_digit2 l1 h1 l2 h2 s =
     [(10 * a + b, s2). (a, s1) \<leftarrow> rx_digit l1 h1 s, (b, s2) \<leftarrow> rx_digit l2 h2 s1]"

definition rx_year :: "string \<Rightarrow> (nat \<times> string) list" where
  \<comment> \<open>\<open>%Y\<close> is \<open>\d\d\d\d\<close>\<close>
  "rx_year s =
     [(1000 * a + 100 * b + 10 * c + d, s4).
        (a, s1) \<leftarrow> rx_digit 0 9 s, (b, s2) \<leftarrow> rx_digit 0 9 s1,
        (c, s3) \<leftarrow> rx_digit 0 9 s2, (d, s4) \<leftarrow> rx_digit 0 9 s3]"

definition rx_month :: "string \<Rightarrow> (nat \<times> string) list" where
  \<comment> \<open>\<open>%m\<close> is \<open>1[0-2]|0[1-9]|[1-9]\<close>\<close>
  "rx_month = rx_alt [rx_digit2 1 1 0 2, rx_digit2 0 0 1 9, rx_digit 1 9]"

definition rx_day :: "string \<Rightarrow> (nat \<times> string) list" where
  \<comment> \<open>\<open>%d\<close> is \<open>3[0-1]|[1-2]\d|0[1-9]|[1-9]| [1-9]\<close>\<close>
  "rx_day =
     rx_alt [rx_digit2 3 3 0 1, rx_digit2 1 2 0 9, rx_digit2 0 0 1 9, rx_digit 1 9,
             (\<lambda>s. [r. s1 \<leftarrow> rx_literal '' '' s, r \<leftarrow> rx_digit 1 9 s1])]"

definition rx_hour :: "string \<Rightarrow> (nat \<times> string) list" where
  \<comment> \<open>\<open>%H\<close> is \<open>2[0-3]|[0-1]\d|\d\<close>\<close>
  "rx_hour = rx_alt [rx_digit2 2 2 0 3, rx_digit2 0 1 0 9, rx_digit 0 9]"

definition rx_minute :: "string \<Rightarrow> (nat \<times> string) list" where
  \<comment> \<open>\<open>%M\<close> is \<open>[0-5]\d|\d\<close>\<close>
  "rx_minute = rx_alt [rx_digit2 0 5 0 9, rx_digit 0 9]"

definition rx_second :: "string \<Rightarrow> (nat \<times> string) list" where
  \<comment> \<open>\<open>%S\<close> is \<open>6[0-1]|[0-5]\d|\d\<close>\<close>
  "rx_second = rx_alt [rx_digit2 6 6 0 1, rx_digit2 0 5 0 9, rx_digit 0 9]"

definition date_regex :: "string \<Rightarrow> ((nat \<times> nat \<times> nat) \<times> string) list" where
  \<comment> \<open>the pattern of the format \<open>%Y-%m-%d\<close>\<close>
  "date_regex s =
     [((y, m, d), s5).
        (y, s1) \<leftarrow> rx_year s, s2 \<leftarrow> rx_literal ''-'' s1,
        (m, s3) \<leftarrow> rx_month s2, s4 \<leftarrow> rx_literal ''-'' s3,
        (d, s5) \<leftarrow> rx_day s4]"

definition datetime_regex ::
  "string \<Rightarrow> ((nat \<times> nat \<times> nat \<times> nat \<times> nat \<times> nat) \<times> string) list" where
  \<comment> \<open>the pattern of the format \<open>%Y-%m-%d %H:%M:%S\<close>; the blank of the format is \<open>\s+\<close>\<close>
  "datetime_regex s =
     [((y, m, d, H, M, S), s11).
        ((y, m, d), s5) \<leftarrow> date_regex s, s6 \<leftarrow> rx_plus_greedy is_space s5,
        (H, s7) \<leftarrow> rx_hour s6, s8 \<leftarrow> rx_literal '':'' s7,
        (M, s9) \<leftarrow> rx_minute s8, s10 \<leftarrow> rx_literal '':'' s9,
        (S, s11) \<leftarrow> rx_second s10]"

definition is_leap :: "nat \<Rightarrow> bool" where
  "is_leap y = (y mod 4 = 0 \<and> (y mod 100 \<noteq> 0 \<or> y mod 400 = 0))"

definition DAYS_IN_MONTH :: "nat list" where
  \<comment> \<open>indexed by the month; index 0 is not used\<close>
  "DAYS_IN_MONTH = [0, 31, 28, 31, 30, 31, 30, 31, 31, 30, 31, 30, 31]"

definition DAYS_BEFORE_MONTH :: "nat list" where
  \<comment> \<open>indexed by the month; index 0 is not used\<close>
  "DAYS_BEFORE_MONTH = [0, 0, 31, 59, 90, 120, 151, 181, 212, 243, 273, 304, 334]"

definition days_in_month :: "nat \<Rightarrow> nat \<Rightarrow> nat" where
  "days_in_month y m = (if m = 2 \<and> is_leap y then 29 else DAYS_IN_MONTH ! m)"

definition days_before_month :: "nat \<Rightarrow> nat \<Rightarrow> nat" where
  "days_before_month y m =
     DAYS_BEFORE_MONTH ! m + (if m > 2 \<and> is_leap y then 1 else 0)"

definition days_before_year :: "nat \<Rightarrow> int" where
  "days_before_year y =
     (let z = int y - 1 in z * 365 + z div 4 - z div 100 + z div 400)"

definition check_date_fields :: "nat \<Rightarrow> nat \<Rightarrow> nat \<Rightarrow> bool" where
  \<comment> \<open>what the constructor of a date accepts; the index into the table is in range
      because the month is checked first\<close>
  "check_date_fields y m d =
     (1 \<le> y \<and> y \<le> 9999 \<and> 1 \<le> m \<and> m \<le> 12 \<and> 1 \<le> d \<and> d \<le> days_in_month y m)"

definition check_time_fields :: "nat \<Rightarrow> nat \<Rightarrow> nat \<Rightarrow> bool" where
  "check_time_fields H M S = (H \<le> 23 \<and> M \<le> 59 \<and> S \<le> 59)"

definition strptime_datetime :: "string \<Rightarrow> error + datetime" where
  \<comment> \<open>\<open>datetime.strptime(s, "%Y-%m-%d %H:%M:%S")\<close>: the pattern must match at the
      start, the first match must end where the string ends, and the fields must be a
      date and a time\<close>
  "strptime_datetime s =
     (case datetime_regex s of
        [] \<Rightarrow> Inl ValueError
      | ((y, m, d, H, M, S), left) # _ \<Rightarrow>
          if left \<noteq> [] then Inl ValueError
          else if \<not> check_date_fields y m d then Inl ValueError
          else if \<not> check_time_fields H M S then Inl ValueError
          else Inr \<lparr>year = y, month = m, day = d, hour = H, minute = M, second = S\<rparr>)"

definition strptime_date :: "string \<Rightarrow> error + datetime" where
  \<comment> \<open>\<open>datetime.strptime(s, "%Y-%m-%d")\<close>\<close>
  "strptime_date s =
     (case date_regex s of
        [] \<Rightarrow> Inl ValueError
      | ((y, m, d), left) # _ \<Rightarrow>
          if left \<noteq> [] then Inl ValueError
          else if \<not> check_date_fields y m d then Inl ValueError
          else Inr \<lparr>year = y, month = m, day = d, hour = 0, minute = 0, second = 0\<rparr>)"

definition toordinal :: "datetime \<Rightarrow> int" where
  \<comment> \<open>the day number of the date, 1 for 1 January of year 1\<close>
  "toordinal dt =
     days_before_year (year dt) + int (days_before_month (year dt) (month dt))
       + int (day dt)"

definition weekday :: "datetime \<Rightarrow> nat" where
  \<comment> \<open>\<open>dt.weekday()\<close>: 0 for Monday\<close>
  "weekday dt = nat ((toordinal dt + 6) mod 7)"

definition days_between :: "datetime \<Rightarrow> datetime \<Rightarrow> int" where
  \<comment> \<open>\<open>(curr - prev).days\<close> for two datetimes at midnight\<close>
  "days_between prev_dt curr_dt = toordinal curr_dt - toordinal prev_dt"

definition digit_char :: "nat \<Rightarrow> char" where
  "digit_char n = char_of (48 + n mod 10)"

definition strftime_year_month :: "datetime \<Rightarrow> string" where
  \<comment> \<open>\<open>dt.strftime("%Y-%m")\<close> as the C library of Linux writes it: the year without
      leading zeros (\<open>999-12\<close> for December of the year 999), the month with two
      digits; the year of a datetime is between 1 and 9999\<close>
  "strftime_year_month dt =
     (if 1000 \<le> year dt then [digit_char (year dt div 1000)] else [])
     @ (if 100 \<le> year dt then [digit_char (year dt div 100)] else [])
     @ (if 10 \<le> year dt then [digit_char (year dt div 10)] else [])
     @ [digit_char (year dt), CHR ''-'',
        digit_char (month dt div 10), digit_char (month dt)]"


section \<open>The archive and \<open>parse_package\<close>\<close>

text \<open>
  The container is what \<open>zipfile.ZipFile\<close> gives: the list of entry names and, for
  the entries the program reads, what \<open>json.load\<close> makes of them: either it raises
  \<open>JSONDecodeError\<close> (\<open>Malformed\<close>) or it returns a value. A value that decodes is
  taken to have the shape of the export format: the index maps channel ids to hint
  strings, a channel's metadata and a message are objects whose fields, when present,
  are strings (the guild an object with a name, the recipients a list of strings).
  Opening an entry whose name is not in the list raises \<open>KeyError\<close>. An entry whose
  bytes cannot be decoded as text (UTF-8, or UTF-16 or UTF-32 when \<open>json\<close> detects them)
  makes \<open>json.load\<close> raise \<open>UnicodeDecodeError\<close>, which no handler of the program
  catches; such archives are outside this model.
\<close>

datatype 'a json = Malformed | Json 'a

record user_info =
  u_id :: "string option"
  username :: "string option"
  global_name :: "string option"
  created_at :: "string option"

record guild_info =
  g_name :: "string option"

record meta =
  meta_type :: "string option"
  meta_guild :: "guild_info option"
  meta_name :: "string option"
  meta_recipients :: "string list option"

record raw_message =
  Timestamp :: "string option"
  Contents :: "utext option"
  Attachments :: "string option"

text \<open>A message of the unified stream carries the keys \<open>_channel\<close>, \<open>_group\<close>, \<open>_type\<close>.\<close>

record message = raw_message +
  m_channel :: string
  m_group :: string
  m_type :: string

record channel =
  c_id :: string
  c_name :: string
  c_group :: string
  c_type :: string
  message_count :: nat
  recipients :: "string list"

record archive =
  namelist :: "string list"
  index_json :: "(string \<rightharpoonup> string) json"         \<comment> \<open>\<open>Messages/index.json\<close>\<close>
  user_json :: "user_info json"                   \<comment> \<open>\<open>Account/user.json\<close>\<close>
  channel_json :: "string \<Rightarrow> meta json"              \<comment> \<open>\<open>Messages/<cdir>/channel.json\<close>\<close>
  messages_json :: "string \<Rightarrow> raw_message list json" \<comment> \<open>\<open>Messages/<cdir>/messages.json\<close>\<close>

definition load_index :: "archive \<Rightarrow> error + (string \<rightharpoonup> string)" where
  \<comment> \<open>lines 18 to 23: only \<open>KeyError\<close> is caught\<close>
  "load_index zf =
     (if ''Messages/index.json'' \<in> set (namelist zf)
      then (case index_json zf of Malformed \<Rightarrow> Inl JSONDecodeError | Json i \<Rightarrow> Inr i)
      else Inr Map.empty)"

definition load_user :: "archive \<Rightarrow> error + user_info" where
  \<comment> \<open>lines 26 to 31: only \<open>KeyError\<close> is caught\<close>
  "load_user zf =
     (if ''Account/user.json'' \<in> set (namelist zf)
      then (case user_json zf of Malformed \<Rightarrow> Inl JSONDecodeError | Json u \<Rightarrow> Inr u)
      else Inr \<lparr>u_id = None, username = None, global_name = None, created_at = None\<rparr>)"

definition channel_dirs :: "archive \<Rightarrow> string list" where
  \<comment> \<open>lines 36 to 39, before the set removes the duplicates\<close>
  "channel_dirs zf =
     [second_component entry.
        entry \<leftarrow> namelist zf,
        startswith entry ''Messages/c'' \<and> endswith entry ''/channel.json'']"

definition load_meta :: "archive \<Rightarrow> string \<Rightarrow> meta option" where
  \<comment> \<open>lines 47 to 51: \<open>None\<close> is the \<open>continue\<close> on \<open>KeyError\<close> or \<open>JSONDecodeError\<close>\<close>
  "load_meta zf cdir =
     (if ''Messages/'' @ cdir @ ''/channel.json'' \<in> set (namelist zf)
      then (case channel_json zf cdir of Malformed \<Rightarrow> None | Json m \<Rightarrow> Some m)
      else None)"

definition load_messages :: "archive \<Rightarrow> string \<Rightarrow> raw_message list" where
  \<comment> \<open>lines 53 to 58: the list stays empty on \<open>KeyError\<close> or \<open>JSONDecodeError\<close>\<close>
  "load_messages zf cdir =
     (if ''Messages/'' @ cdir @ ''/messages.json'' \<in> set (namelist zf)
      then (case messages_json zf cdir of Malformed \<Rightarrow> [] | Json ms \<Rightarrow> ms)
      else [])"

definition tag :: "string \<Rightarrow> string \<Rightarrow> string \<Rightarrow> raw_message \<Rightarrow> message" where
  \<comment> \<open>lines 86 to 88\<close>
  "tag display grp ch_type msg =
     \<lparr>Timestamp = Timestamp msg, Contents = Contents msg, Attachments = Attachments msg,
      m_channel = display, m_group = grp, m_type = ch_type\<rparr>"

definition get_or :: "'a option \<Rightarrow> 'a \<Rightarrow> 'a" where
  \<comment> \<open>\<open>d.get(key, default)\<close> on the field of a record\<close>
  "get_or field dflt = (case field of None \<Rightarrow> dflt | Some v \<Rightarrow> v)"

fun channel_loop ::
  "archive \<Rightarrow> (string \<rightharpoonup> string) \<Rightarrow> string list \<Rightarrow> channel list \<times> message list
     \<Rightarrow> channel list \<times> message list" where
  \<comment> \<open>lines 44 to 98, over the sorted folder names\<close>
  "channel_loop zf index [] (chans, all_messages) = (chans, all_messages)"
| "channel_loop zf index (cdir # cdirs) (chans, all_messages) =
     (let channel_id = drop 1 cdir in
      case load_meta zf cdir of
        None \<Rightarrow> channel_loop zf index cdirs (chans, all_messages)
      | Some meta \<Rightarrow>
          (let msgs = load_messages zf cdir;
               ch_type = get_or (meta_type meta) ''UNKNOWN'';
               guild_name =
                 (case meta_guild meta of None \<Rightarrow> '''' | Some guild \<Rightarrow> get_or (g_name guild) '''');
               ch_name = get_or (meta_name meta) '''';
               idx_val = get_or (index channel_id) '''';
               (display, grp) = resolve ch_type ch_name guild_name channel_id idx_val
           in channel_loop zf index cdirs
                (chans @
                   [\<lparr>c_id = channel_id, c_name = display, c_group = grp, c_type = ch_type,
                     message_count = length msgs,
                     recipients = get_or (meta_recipients meta) []\<rparr>],
                 all_messages @ map (tag display grp ch_type) msgs)))"

record package_data =
  channels :: "channel list"
  messages :: "message list"
  user :: user_info

definition parse_package :: "archive option \<Rightarrow> error + package_data" where
  \<comment> \<open>the argument is what is found at \<open>zip_path\<close>: \<open>None\<close> when \<open>zipfile.ZipFile\<close>
      cannot open it\<close>
  "parse_package container =
     (case container of
        None \<Rightarrow> Inl ZipOpenError
      | Some zf \<Rightarrow>
          (case load_index zf of
             Inl e \<Rightarrow> Inl e
           | Inr index \<Rightarrow>
               (case load_user zf of
                  Inl e \<Rightarrow> Inl e
                | Inr usr \<Rightarrow>
                    (let (chans, all_messages) =
                           channel_loop zf index (sort (remdups (channel_dirs zf))) ([], [])
                     in Inr \<lparr>channels = chans, messages = all_messages, user = usr\<rparr>))))"


section \<open>\<open>compute_stats\<close>\<close>

subsection \<open>Counters\<close>

text \<open>
  A \<open>Counter\<close> or \<open>defaultdict(int)\<close> is a dictionary that keeps its keys in the order
  of their first insertion: an association list with distinct keys.
\<close>

fun counter_add :: "'k \<Rightarrow> nat \<Rightarrow> ('k \<times> nat) list \<Rightarrow> ('k \<times> nat) list" where
  \<comment> \<open>\<open>c[k] += n\<close>\<close>
  "counter_add k n [] = [(k, n)]"
| "counter_add k n ((k', v) # kvs) =
     (if k = k' then (k', v + n) # kvs else (k', v) # counter_add k n kvs)"

definition counter_get :: "('k \<times> nat) list \<Rightarrow> 'k \<Rightarrow> nat" where
  \<comment> \<open>\<open>c.get(k, 0)\<close>\<close>
  "counter_get c k = (case map_of c k of None \<Rightarrow> 0 | Some v \<Rightarrow> v)"

definition most_common :: "nat \<Rightarrow> ('k \<times> nat) list \<Rightarrow> ('k \<times> nat) list" where
  \<comment> \<open>\<open>c.most_common(n)\<close>: the items by decreasing count, equal counts in the order of
      the dictionary, the first \<open>n\<close> of them\<close>
  "most_common n c = take n (sort_key (\<lambda>(k, v). - int v) c)"

subsection \<open>Rankings (lines 121 to 157)\<close>

record ranked =
  name :: string
  count :: nat

record ranked_channel = ranked +
  server :: string

definition is_server_channel :: "channel \<Rightarrow> bool" where
  \<comment> \<open>\<open>c["type"] not in ("DM", "GROUP_DM")\<close>\<close>
  "is_server_channel c = (c_type c \<noteq> ''DM'' \<and> c_type c \<noteq> ''GROUP_DM'')"

definition dm_counts :: "channel list \<Rightarrow> ranked list" where
  "dm_counts chans =
     [\<lparr>name = c_name c, count = message_count c\<rparr>.
        c \<leftarrow> chans, c_type c = ''DM'' \<and> message_count c > 0]"

definition gdm_counts :: "channel list \<Rightarrow> ranked list" where
  "gdm_counts chans =
     [\<lparr>name = c_name c, count = message_count c\<rparr>.
        c \<leftarrow> chans, c_type c = ''GROUP_DM'' \<and> message_count c > 0]"

definition server_msgs :: "channel list \<Rightarrow> (string \<times> nat) list" where
  "server_msgs chans =
     fold (\<lambda>c acc. if is_server_channel c
                    then counter_add (c_group c) (message_count c) acc else acc)
       chans []"

definition server_counts :: "channel list \<Rightarrow> ranked list" where
  "server_counts chans =
     [\<lparr>name = k, count = v\<rparr>. (k, v) \<leftarrow> server_msgs chans, v > 0]"

definition ch_counts :: "channel list \<Rightarrow> ranked_channel list" where
  "ch_counts chans =
     [\<lparr>name = c_name c, count = message_count c, server = c_group c\<rparr>.
        c \<leftarrow> chans, is_server_channel c \<and> message_count c > 0]"

definition sort_by_count :: "'a ranked_scheme list \<Rightarrow> 'a ranked_scheme list" where
  \<comment> \<open>\<open>sort(key=lambda x: -x["count"])\<close>: a stable sort\<close>
  "sort_by_count xs = sort_key (\<lambda>x. - int (count x)) xs"

subsection \<open>Time buckets (lines 161 to 183)\<close>

definition timestamp_of :: "message \<Rightarrow> string" where
  \<comment> \<open>\<open>msg.get("Timestamp", "")\<close>\<close>
  "timestamp_of msg = get_or (Timestamp msg) ''''"

definition contents_of :: "message \<Rightarrow> utext" where
  \<comment> \<open>\<open>msg.get("Contents", "")\<close>\<close>
  "contents_of msg = get_or (Contents msg) []"

definition parsed_timestamp :: "message \<Rightarrow> datetime option" where
  \<comment> \<open>lines 168 to 174: \<open>None\<close> is the \<open>continue\<close>, on an empty timestamp and on
      \<open>ValueError\<close>\<close>
  "parsed_timestamp msg =
     (let ts = timestamp_of msg in
      if ts = [] then None
      else case strptime_datetime (take 19 ts) of Inl e \<Rightarrow> None | Inr dt \<Rightarrow> Some dt)"

fun bucket_loop ::
  "message list
     \<Rightarrow> (string \<times> nat) list \<times> (nat \<times> nat) list \<times> (nat \<times> nat) list \<times> (nat \<times> nat) list
     \<Rightarrow> (string \<times> nat) list \<times> (nat \<times> nat) list \<times> (nat \<times> nat) list \<times> (nat \<times> nat) list"
  where
  "bucket_loop [] (monthly, hourly, daily_dow, yearly) = (monthly, hourly, daily_dow, yearly)"
| "bucket_loop (msg # msgs) (monthly, hourly, daily_dow, yearly) =
     (case parsed_timestamp msg of
        None \<Rightarrow> bucket_loop msgs (monthly, hourly, daily_dow, yearly)
      | Some dt \<Rightarrow>
          bucket_loop msgs
            (counter_add (strftime_year_month dt) 1 monthly,
             counter_add (hour dt) 1 hourly,
             counter_add (weekday dt) 1 daily_dow,
             counter_add (year dt) 1 yearly))"

definition dow_names :: "string list" where
  "dow_names = [''Mon'', ''Tue'', ''Wed'', ''Thu'', ''Fri'', ''Sat'', ''Sun'']"

subsection \<open>Message lengths and attachments (lines 186 to 200)\<close>

text \<open>
  The average length is a floating point number and the word total splits on Unicode
  whitespace; both are left out of the model.
\<close>

definition lengths :: "message list \<Rightarrow> nat list" where
  "lengths msgs = [length (contents_of msg). msg \<leftarrow> msgs, contents_of msg \<noteq> []]"

definition max_list :: "nat list \<Rightarrow> nat" where
  \<comment> \<open>\<open>max\<close> of a list, applied to non-empty lists only\<close>
  "max_list xs = (case xs of [] \<Rightarrow> 0 | x # r \<Rightarrow> fold max r x)"

definition attachments :: "message list \<Rightarrow> nat" where
  "attachments msgs = length [msg \<leftarrow> msgs. get_or (Attachments msg) '''' \<noteq> []]"

subsection \<open>Words and emoji (lines 203 to 258)\<close>

text \<open>
  \<open>str.lower\<close> and the classes \<open>\w\<close> and \<open>\d\<close> of the custom emoji pattern are
  modelled on the ASCII letters and digits; the case mappings and the letters and
  digits of the rest of Unicode are not part of the model.
\<close>

definition encode :: "string \<Rightarrow> utext" where
  \<comment> \<open>the code points of a string\<close>
  "encode s = map of_char s"

definition stopwords :: "utext list" where
  "stopwords = map encode
     [''the'', ''a'', ''an'', ''is'', ''are'', ''was'', ''were'', ''be'', ''been'', ''being'',
      ''have'', ''has'', ''had'', ''do'', ''does'', ''did'', ''will'', ''would'', ''could'',
      ''should'', ''may'', ''might'', ''shall'', ''can'', ''to'', ''of'', ''in'', ''for'',
      ''on'', ''with'', ''at'', ''by'', ''from'', ''as'', ''into'', ''through'', ''during'',
      ''before'', ''after'', ''and'', ''but'', ''or'', ''nor'', ''not'', ''so'', ''yet'',
      ''both'', ''either'', ''neither'', ''each'', ''every'', ''all'', ''any'', ''few'',
      ''more'', ''most'', ''other'', ''some'', ''such'', ''no'', ''only'', ''own'', ''same'',
      ''than'', ''too'', ''very'', ''just'', ''i'', ''me'', ''my'', ''we'', ''our'', ''you'',
      ''your'', ''he'', ''him'', ''his'', ''she'', ''her'', ''it'', ''its'', ''they'', ''them'',
      ''their'', ''what'', ''which'', ''who'', ''whom'', ''this'', ''that'', ''these'',
      ''those'', ''am'', ''if'', ''then'', ''else'', ''when'', ''up'', ''out'', ''about'',
      ''how'', ''why'', ''where'', ''there'', ''here'', ''also'', ''like'', ''oh'', ''im'',
      ''ok'', ''yeah'', ''dont'', ''thats'', ''lol'', ''omg'', ''u'', ''ur'']"

definition is_upper :: "nat \<Rightarrow> bool" where
  "is_upper c = (65 \<le> c \<and> c \<le> 90)"

definition is_lower :: "nat \<Rightarrow> bool" where
  "is_lower c = (97 \<le> c \<and> c \<le> 122)"

definition is_decimal :: "nat \<Rightarrow> bool" where
  "is_decimal c = (48 \<le> c \<and> c \<le> 57)"

definition lower :: "utext \<Rightarrow> utext" where
  \<comment> \<open>\<open>text.lower()\<close>\<close>
  "lower t = map (\<lambda>c. if is_upper c then c + 32 else c) t"

definition is_word_char :: "nat \<Rightarrow> bool" where
  \<comment> \<open>\<open>[a-zA-Z']\<close>\<close>
  "is_word_char c = (is_lower c \<or> is_upper c \<or> c = 39)"

definition class_plus :: "('a \<Rightarrow> bool) \<Rightarrow> 'a list \<Rightarrow> nat option" where
  \<comment> \<open>the match of \<open>[class]+\<close> at the head of \<open>s\<close>\<close>
  "class_plus P s = first_match_length s (rx_plus_greedy P s)"

definition find_words :: "utext \<Rightarrow> utext list" where
  \<comment> \<open>\<open>re.findall(r"[a-zA-Z']+", text.lower())\<close>\<close>
  "find_words t = findall (class_plus is_word_char) (lower t)"

definition count_words :: "utext list \<Rightarrow> (utext \<times> nat) list \<Rightarrow> (utext \<times> nat) list" where
  \<comment> \<open>lines 224 to 226\<close>
  "count_words ws word_counter =
     fold (\<lambda>w wc. if length w \<ge> 2 \<and> w \<notin> set stopwords then counter_add w 1 wc else wc)
       ws word_counter"

definition word_loop :: "message list \<Rightarrow> (utext \<times> nat) list" where
  \<comment> \<open>lines 219 to 226\<close>
  "word_loop msgs =
     fold (\<lambda>msg wc. if contents_of msg = [] then wc
                     else count_words (find_words (contents_of msg)) wc)
       msgs []"

definition in_emoji_ranges :: "nat \<Rightarrow> bool" where
  \<comment> \<open>the character class of \<open>emoji_pattern\<close>\<close>
  "in_emoji_ranges c =
     ((0x1F600 \<le> c \<and> c \<le> 0x1F64F) \<or> (0x1F300 \<le> c \<and> c \<le> 0x1F5FF)
    \<or> (0x1F680 \<le> c \<and> c \<le> 0x1F6FF) \<or> (0x1F900 \<le> c \<and> c \<le> 0x1F9FF)
    \<or> (0x1FA00 \<le> c \<and> c \<le> 0x1FA6F) \<or> (0x1FA70 \<le> c \<and> c \<le> 0x1FAFF)
    \<or> (0x2702 \<le> c \<and> c \<le> 0x27B0) \<or> (0xFE00 \<le> c \<and> c \<le> 0xFE0F)
    \<or> c = 0x200D \<or> (0x2640 \<le> c \<and> c \<le> 0x2642) \<or> (0x2600 \<le> c \<and> c \<le> 0x26FF))"

definition emoji_findall :: "utext \<Rightarrow> utext list" where
  \<comment> \<open>\<open>emoji_pattern.findall(text)\<close>\<close>
  "emoji_findall t = findall (class_plus in_emoji_ranges) t"

definition is_w :: "nat \<Rightarrow> bool" where
  \<comment> \<open>\<open>\w\<close> and \<open>[a-zA-Z0-9_]\<close>\<close>
  "is_w c = (is_lower c \<or> is_upper c \<or> is_decimal c \<or> c = 95)"

definition discord_emoji_ways :: "utext \<Rightarrow> utext list" where
  \<comment> \<open>\<open><a?:\w+:\d+>|:[a-zA-Z0-9_]+:\<close> at the head of \<open>s\<close>\<close>
  "discord_emoji_ways =
     rx_alt
       [\<lambda>s. [s7.
               s1 \<leftarrow> rx_literal (encode ''<'') s,
               s2 \<leftarrow> rx_optional (rx_literal (encode ''a'')) s1,
               s3 \<leftarrow> rx_literal (encode '':'') s2,
               s4 \<leftarrow> rx_plus_greedy is_w s3,
               s5 \<leftarrow> rx_literal (encode '':'') s4,
               s6 \<leftarrow> rx_plus_greedy is_decimal s5,
               s7 \<leftarrow> rx_literal (encode ''>'') s6],
        \<lambda>s. [s3.
               s1 \<leftarrow> rx_literal (encode '':'') s,
               s2 \<leftarrow> rx_plus_greedy is_w s1,
               s3 \<leftarrow> rx_literal (encode '':'') s2]]"

definition discord_emoji_findall :: "utext \<Rightarrow> utext list" where
  \<comment> \<open>\<open>discord_emoji_pattern.findall(text)\<close>\<close>
  "discord_emoji_findall t =
     findall (\<lambda>s. first_match_length s (discord_emoji_ways s)) t"

definition count_all :: "'k list \<Rightarrow> ('k \<times> nat) list \<Rightarrow> ('k \<times> nat) list" where
  \<comment> \<open>\<open>for match in matches: counter[match] += 1\<close>\<close>
  "count_all ks c = fold (\<lambda>k acc. counter_add k 1 acc) ks c"

definition emoji_loop :: "message list \<Rightarrow> (utext \<times> nat) list" where
  \<comment> \<open>lines 250 to 257\<close>
  "emoji_loop msgs =
     fold (\<lambda>msg ec. if contents_of msg = [] then ec
                     else count_all (discord_emoji_findall (contents_of msg))
                            (count_all (emoji_findall (contents_of msg)) ec))
       msgs []"

subsection \<open>Longest streak (lines 261 to 286)\<close>

definition msg_dates :: "message list \<Rightarrow> string list" where
  \<comment> \<open>the elements of the set \<open>msg_dates\<close>, without repetition\<close>
  "msg_dates msgs =
     remdups [take 10 (timestamp_of msg). msg \<leftarrow> msgs, timestamp_of msg \<noteq> []]"

fun streak_loop ::
  "string list \<Rightarrow> nat \<times> nat \<times> string \<times> string \<Rightarrow> error + (nat \<times> nat \<times> string \<times> string)"
  where
  \<comment> \<open>lines 271 to 281: one step for each pair \<open>sorted_dates[i - 1]\<close>, \<open>sorted_dates[i]\<close>\<close>
  "streak_loop (prev_date # curr_date # dates)
     (longest_streak, current_streak, streak_start, best_streak_start) =
     (case strptime_date prev_date of
        Inl e \<Rightarrow> Inl e
      | Inr prev_dt \<Rightarrow>
          (case strptime_date curr_date of
             Inl e \<Rightarrow> Inl e
           | Inr curr_dt \<Rightarrow>
               if days_between prev_dt curr_dt = 1 then
                 streak_loop (curr_date # dates)
                   (longest_streak, current_streak + 1, streak_start, best_streak_start)
               else if current_streak > longest_streak then
                 streak_loop (curr_date # dates)
                   (current_streak, 1, curr_date, streak_start)
               else
                 streak_loop (curr_date # dates)
                   (longest_streak, 1, curr_date, best_streak_start)))"
| "streak_loop dates st = Inr st"

definition longest_streak_scan :: "string list \<Rightarrow> error + (nat \<times> string)" where
  \<comment> \<open>lines 267 to 286, from \<open>sorted_dates\<close> to \<open>(longest_streak, best_streak_start)\<close>\<close>
  "longest_streak_scan sorted_dates =
     (let streak_start = (case sorted_dates of [] \<Rightarrow> '''' | d # _ \<Rightarrow> d) in
      case streak_loop sorted_dates (0, 1, streak_start, streak_start) of
        Inl e \<Rightarrow> Inl e
      | Inr (longest_streak, current_streak, streak_start, best_streak_start) \<Rightarrow>
          if current_streak > longest_streak then Inr (current_streak, streak_start)
          else Inr (longest_streak, best_streak_start))"

subsection \<open>First and last message, busiest day (lines 289 to 311)\<close>

definition timestamps :: "message list \<Rightarrow> string list" where
  "timestamps msgs = [timestamp_of msg. msg \<leftarrow> msgs, timestamp_of msg \<noteq> []]"

definition min_str :: "string list \<Rightarrow> string" where
  \<comment> \<open>\<open>min\<close> of a list of strings, applied to non-empty lists only\<close>
  "min_str xs = (case xs of [] \<Rightarrow> '''' | x # r \<Rightarrow> fold (\<lambda>y m. if y < m then y else m) r x)"

definition max_str :: "string list \<Rightarrow> string" where
  \<comment> \<open>\<open>max\<close> of a list of strings, applied to non-empty lists only\<close>
  "max_str xs = (case xs of [] \<Rightarrow> '''' | x # r \<Rightarrow> fold (\<lambda>y m. if y > m then y else m) r x)"

definition day_counts :: "message list \<Rightarrow> (string \<times> nat) list" where
  "day_counts msgs =
     count_all [take 10 (timestamp_of msg). msg \<leftarrow> msgs, timestamp_of msg \<noteq> []] []"

subsection \<open>The statistics\<close>

text \<open>
  Each entry of the result is named after its key in \<open>stats\<close>, with \<open>_of\<close> appended
  for the function that computes it from the channels or from the messages.
\<close>

definition top_dms_of :: "channel list \<Rightarrow> ranked list" where
  "top_dms_of chans = take 25 (sort_by_count (dm_counts chans))"

definition top_group_dms_of :: "channel list \<Rightarrow> ranked list" where
  "top_group_dms_of chans = take 15 (sort_by_count (gdm_counts chans))"

definition top_servers_of :: "channel list \<Rightarrow> ranked list" where
  "top_servers_of chans = take 20 (sort_by_count (server_counts chans))"

definition top_channels_of :: "channel list \<Rightarrow> ranked_channel list" where
  "top_channels_of chans = take 20 (sort_by_count (ch_counts chans))"

definition time_buckets ::
  "message list
     \<Rightarrow> (string \<times> nat) list \<times> (nat \<times> nat) list \<times> (nat \<times> nat) list \<times> (nat \<times> nat) list"
  where
  \<comment> \<open>the four counters after the loop of lines 167 to 178\<close>
  "time_buckets msgs = bucket_loop msgs ([], [], [], [])"

definition monthly_of :: "message list \<Rightarrow> (string \<times> nat) list" where
  "monthly_of msgs =
     (case time_buckets msgs of (monthly, hourly, daily_dow, yearly) \<Rightarrow> sort monthly)"

definition hourly_of :: "message list \<Rightarrow> (nat \<times> nat) list" where
  "hourly_of msgs =
     (case time_buckets msgs of (monthly, hourly, daily_dow, yearly) \<Rightarrow>
        [(h, counter_get hourly h). h \<leftarrow> [0 ..< 24]])"

definition daily_dow_of :: "message list \<Rightarrow> (string \<times> nat) list" where
  "daily_dow_of msgs =
     (case time_buckets msgs of (monthly, hourly, daily_dow, yearly) \<Rightarrow>
        [(dow_names ! d, counter_get daily_dow d). d \<leftarrow> [0 ..< 7]])"

definition yearly_of :: "message list \<Rightarrow> (nat \<times> nat) list" where
  "yearly_of msgs =
     (case time_buckets msgs of (monthly, hourly, daily_dow, yearly) \<Rightarrow> sort yearly)"

definition first_message_of :: "message list \<Rightarrow> string" where
  "first_message_of msgs =
     (if timestamps msgs \<noteq> [] then min_str (timestamps msgs) else '''')"

definition last_message_of :: "message list \<Rightarrow> string" where
  "last_message_of msgs =
     (if timestamps msgs \<noteq> [] then max_str (timestamps msgs) else '''')"

definition active_days_of :: "message list \<Rightarrow> nat" where
  "active_days_of msgs = (if timestamps msgs \<noteq> [] then length (msg_dates msgs) else 0)"

definition busiest_of :: "message list \<Rightarrow> string \<times> nat" where
  \<comment> \<open>lines 305 to 311: \<open>(busiest_day, busiest_day_count)\<close>\<close>
  "busiest_of msgs =
     (case most_common 1 (day_counts msgs) of [] \<Rightarrow> ('''', 0) | busiest # _ \<Rightarrow> busiest)"

record time_of_day_split =
  night :: nat
  morning :: nat
  afternoon :: nat
  evening :: nat

definition time_of_day_of :: "message list \<Rightarrow> time_of_day_split" where
  "time_of_day_of msgs =
     (case time_buckets msgs of (monthly, hourly, daily_dow, yearly) \<Rightarrow>
        \<lparr>night = sum_list (map (counter_get hourly) [0 ..< 6]),
         morning = sum_list (map (counter_get hourly) [6 ..< 12]),
         afternoon = sum_list (map (counter_get hourly) [12 ..< 18]),
         evening = sum_list (map (counter_get hourly) [18 ..< 24])\<rparr>)"

record stats =
  total_messages :: nat
  total_channels :: nat
  total_dms :: nat
  total_group_dms :: nat
  total_servers :: nat
  top_dms :: "ranked list"
  top_group_dms :: "ranked list"
  top_servers :: "ranked list"
  top_channels :: "ranked_channel list"
  monthly :: "(string \<times> nat) list"
  hourly :: "(nat \<times> nat) list"
  daily_dow :: "(string \<times> nat) list"
  yearly :: "(nat \<times> nat) list"
  max_msg_length :: nat
  total_characters :: nat
  attachment_count :: nat
  top_words :: "(utext \<times> nat) list"
  top_emoji :: "(utext \<times> nat) list"
  longest_streak :: nat
  longest_streak_start :: string
  first_message :: string
  last_message :: string
  active_days :: nat
  busiest_day :: string
  busiest_day_count :: nat
  time_of_day :: time_of_day_split

definition compute_stats :: "package_data \<Rightarrow> error + stats" where
  \<comment> \<open>the scan for the longest streak is the one step that can raise, and then nothing
      is returned\<close>
  "compute_stats data =
     (let chans = channels data;
          msgs = messages data
      in case longest_streak_scan (sort (msg_dates msgs)) of
           Inl e \<Rightarrow> Inl e
         | Inr (streak, streak_start) \<Rightarrow>
             Inr \<lparr>total_messages = length msgs,
                  total_channels = length chans,
                  total_dms = length [c \<leftarrow> chans. c_type c = ''DM''],
                  total_group_dms = length [c \<leftarrow> chans. c_type c = ''GROUP_DM''],
                  total_servers = length (remdups [c_group c. c \<leftarrow> chans, is_server_channel c]),
                  top_dms = top_dms_of chans,
                  top_group_dms = top_group_dms_of chans,
                  top_servers = top_servers_of chans,
                  top_channels = top_channels_of chans,
                  monthly = monthly_of msgs,
                  hourly = hourly_of msgs,
                  daily_dow = daily_dow_of msgs,
                  yearly = yearly_of msgs,
                  max_msg_length = max_list (lengths msgs),
                  total_characters = sum_list (lengths msgs),
                  attachment_count = attachments msgs,
                  top_words = most_common 30 (word_loop msgs),
                  top_emoji = most_common 20 (emoji_loop msgs),
                  longest_streak = streak,
                  longest_streak_start = streak_start,
                  first_message = first_message_of msgs,
                  last_message = last_message_of msgs,
                  active_days = active_days_of msgs,
                  busiest_day = fst (busiest_of msgs),
                  busiest_day_count = snd (busiest_of msgs),
                  time_of_day = time_of_day_of msgs\<rparr>)"


text \<open>
  The pattern of the hint in the words of the specification,
  \<open>Direct Message with <name>[#<digits>]\<close>: a name is not empty and has no newline, and
  what follows it is nothing, or \<open>#\<close> and one or more digits, up to the end of the hint
  (\<open>$\<close>). \<open>removeprefix\<close> is the hint with a literal prefix stripped, the hint itself
  when it does not start with the literal.
\<close>

definition is_name :: "string \<Rightarrow> bool" where
  "is_name friend = (friend \<noteq> [] \<and> newline \<notin> set friend)"

definition follows_name :: "string \<Rightarrow> bool" where
  "follows_name t =
     (rx_end t
      \<or> (startswith t ''#'' \<and> takeWhile is_digit (drop 1 t) \<noteq> []
         \<and> rx_end (dropWhile is_digit (drop 1 t))))"

definition removeprefix :: "string \<Rightarrow> string \<Rightarrow> string" where
  "removeprefix s p = (if startswith s p then drop (length p) s else s)"


subsection \<open>The message of the word and emoji example\<close>

definition hi_there :: utext where
  \<comment> \<open>\<open>Hi there!\<close>, the emoji U+1F600, and \<open>:custom_emoji:\<close>, separated by blanks\<close>
  "hi_there = encode ''Hi there! '' @ [0x1F600] @ encode '' :custom_emoji:''"

definition with_contents :: "utext \<Rightarrow> message" where
  \<comment> \<open>a message of the stream that has contents only\<close>
  "with_contents t =
     \<lparr>Timestamp = None, Contents = Some t, Attachments = None,
      m_channel = ''#general'', m_group = ''My Server'', m_type = ''GUILD_TEXT''\<rparr>"


subsection \<open>Inputs of the examples\<close>

definition no_user :: user_info where
  \<comment> \<open>the profile when \<open>Account/user.json\<close> is absent\<close>
  "no_user = \<lparr>u_id = None, username = None, global_name = None, created_at = None\<rparr>"

definition no_data :: package_data where
  \<comment> \<open>what \<open>parse_package\<close> returns for an archive without channels\<close>
  "no_data = \<lparr>channels = [], messages = [], user = no_user\<rparr>"

definition stamped :: "string \<Rightarrow> message" where
  \<comment> \<open>a message of the stream that has a timestamp only\<close>
  "stamped ts =
     \<lparr>Timestamp = Some ts, Contents = None, Attachments = None,
      m_channel = ''Alex'', m_group = ''Direct Messages'', m_type = ''DM''\<rparr>"

definition stream :: "message list \<Rightarrow> package_data" where
  \<comment> \<open>a message stream, without channel summaries\<close>
  "stream msgs = \<lparr>channels = [], messages = msgs, user = no_user\<rparr>"

definition bad_index_archive :: archive where
  \<comment> \<open>an archive whose only entry is \<open>Messages/index.json\<close>, and it is not JSON\<close>
  "bad_index_archive =
     \<lparr>namelist = [''Messages/index.json''],
      index_json = Malformed,
      user_json = Malformed,
      channel_json = (\<lambda>cdir. Malformed),
      messages_json = (\<lambda>cdir. Malformed)\<rparr>"


definition small_archive :: archive where
  \<comment> \<open>one server channel with three messages; the second timestamp has a \<open>T\<close> where
      the format has a blank\<close>
  "small_archive =
     \<lparr>namelist =
        [''Messages/index.json'', ''Messages/c42/channel.json'', ''Messages/c42/messages.json''],
      index_json = Json [''42'' \<mapsto> ''general in My Server''],
      user_json = Malformed,
      channel_json =
        (\<lambda>cdir. Json \<lparr>meta_type = Some ''GUILD_TEXT'', meta_guild = None,
                        meta_name = Some ''general'', meta_recipients = None\<rparr>),
      messages_json =
        (\<lambda>cdir. Json
           [\<lparr>Timestamp = Some ''2024-01-01 10:00:00'', Contents = None, Attachments = None\<rparr>,
            \<lparr>Timestamp = Some ''2024-01-01T12:00:00'', Contents = None, Attachments = None\<rparr>,
            \<lparr>Timestamp = Some ''2024-01-02 09:30:00'', Contents = None, Attachments = None\<rparr>])\<rparr>"

definition in_general :: "string \<Rightarrow> message" where
  \<comment> \<open>a message of that channel\<close>
  "in_general ts =
     \<lparr>Timestamp = Some ts, Contents = None, Attachments = None,
      m_channel = ''#general'', m_group = ''My Server'', m_type = ''GUILD_TEXT''\<rparr>"

definition small_data :: package_data where
  \<comment> \<open>what \<open>parse_package\<close> returns for \<open>small_archive\<close>\<close>
  "small_data =
     \<lparr>channels =
        [\<lparr>c_id = ''42'', c_name = ''#general'', c_group = ''My Server'',
          c_type = ''GUILD_TEXT'', message_count = 3, recipients = []\<rparr>],
      messages =
        [in_general ''2024-01-01 10:00:00'', in_general ''2024-01-01T12:00:00'',
         in_general ''2024-01-02 09:30:00''],
      user = no_user\<rparr>"


subsection \<open>What a ranking is, in the words of the specification\<close>

text \<open>
  \<open>is_ranking cap candidates ranking\<close>: the candidates are put in order of
  non-increasing count, the candidates of equal count keeping the order they have among
  the candidates (for every count, the ordered list and the candidates hold the same
  entries of that count in the same order), and the ranking is the first \<open>cap\<close> entries
  of that order. There is one such order only (\<open>stable_order_unique\<close> below), so the
  ranking is fixed by its candidates.
\<close>

definition is_ranking :: "nat \<Rightarrow> 'a ranked_scheme list \<Rightarrow> 'a ranked_scheme list \<Rightarrow> bool" where
  "is_ranking cap candidates ranking \<longleftrightarrow>
     (\<exists>ordered.
        sorted_wrt (\<lambda>a b. count a \<ge> count b) ordered
        \<and> (\<forall>k. [e \<leftarrow> ordered. count e = k] = [e \<leftarrow> candidates. count e = k])
        \<and> ranking = take cap ordered)"

text \<open>
  The candidates, from the channel summaries in the order in which \<open>parse_package\<close>
  lists them. A channel is a candidate when it has the type of the ranking and a count
  above 0. The candidates of the server ranking are the groups of the server channels
  (the channels that are neither \<open>DM\<close> nor \<open>GROUP_DM\<close>), each at the place of its first
  server channel, with the sum of the counts of its server channels, when that sum is
  above 0.
\<close>

definition first_occurrences :: "'a list \<Rightarrow> 'a list" where
  \<comment> \<open>the distinct elements of a list, each at the place of its first occurrence\<close>
  "first_occurrences xs = rev (remdups (rev xs))"

definition server_total :: "channel list \<Rightarrow> string \<Rightarrow> nat" where
  \<comment> \<open>the sum of the message counts of the server channels of one group\<close>
  "server_total chans g =
     sum_list (map message_count [c \<leftarrow> chans. is_server_channel c \<and> c_group c = g])"

definition channel_candidates :: "(channel \<Rightarrow> bool) \<Rightarrow> channel list \<Rightarrow> ranked list" where
  "channel_candidates of_type chans =
     map (\<lambda>c. \<lparr>name = c_name c, count = message_count c\<rparr>)
       [c \<leftarrow> chans. of_type c \<and> 0 < message_count c]"

definition server_channel_candidates :: "channel list \<Rightarrow> ranked_channel list" where
  "server_channel_candidates chans =
     map (\<lambda>c. \<lparr>name = c_name c, count = message_count c, server = c_group c\<rparr>)
       [c \<leftarrow> chans. c_type c \<noteq> ''DM'' \<and> c_type c \<noteq> ''GROUP_DM'' \<and> 0 < message_count c]"

definition server_candidates :: "channel list \<Rightarrow> ranked list" where
  "server_candidates chans =
     map (\<lambda>g. \<lparr>name = g, count = server_total chans g\<rparr>)
       [g \<leftarrow> first_occurrences
               (map c_group [c \<leftarrow> chans. c_type c \<noteq> ''DM'' \<and> c_type c \<noteq> ''GROUP_DM'']).
          0 < server_total chans g]"

text \<open>
  The order in which the servers are first met in the unified stream: the groups of the
  messages of server channels, each at the place of its first message.
\<close>

definition servers_in_stream :: "message list \<Rightarrow> string list" where
  "servers_in_stream msgs =
     first_occurrences (map m_group [m \<leftarrow> msgs. m_type m \<noteq> ''DM'' \<and> m_type m \<noteq> ''GROUP_DM''])"

text \<open>
  Where a message of the stream comes from, and the block of messages that a channel
  contributes to the stream: as many messages as its count, all of its name, group and
  type.
\<close>

definition origin :: "message \<Rightarrow> string \<times> string \<times> string" where
  "origin m = (m_channel m, m_group m, m_type m)"

definition block :: "channel \<Rightarrow> (string \<times> string \<times> string) list" where
  "block c = replicate (message_count c) (c_name c, c_group c, c_type c)"

subsection \<open>An archive with two servers of equal count\<close>

definition tie_archive :: archive where
  \<comment> \<open>three server channels: \<open>c1\<close> of server S1 without messages, \<open>c2\<close> of server S2
      and \<open>c3\<close> of server S1 with one message each\<close>
  "tie_archive =
     \<lparr>namelist =
        [''Messages/c1/channel.json'',
         ''Messages/c2/channel.json'', ''Messages/c2/messages.json'',
         ''Messages/c3/channel.json'', ''Messages/c3/messages.json''],
      index_json = Json Map.empty,
      user_json = Json no_user,
      channel_json =
        (\<lambda>cdir. Json \<lparr>meta_type = Some ''GUILD_TEXT'',
                        meta_guild = Some \<lparr>g_name = Some (if cdir = ''c2'' then ''S2'' else ''S1'')\<rparr>,
                        meta_name = Some ''general'', meta_recipients = None\<rparr>),
      messages_json =
        (\<lambda>cdir. Json [\<lparr>Timestamp = None, Contents = Some (encode ''hello''),
                         Attachments = None\<rparr>])\<rparr>"

definition hello_in :: "string \<Rightarrow> message" where
  \<comment> \<open>the message of a channel of \<open>tie_archive\<close>, tagged with its server\<close>
  "hello_in srv =
     \<lparr>Timestamp = None, Contents = Some (encode ''hello''), Attachments = None,
      m_channel = ''#general'', m_group = srv, m_type = ''GUILD_TEXT''\<rparr>"

definition tie_data :: package_data where
  \<comment> \<open>what \<open>parse_package\<close> returns for \<open>tie_archive\<close>\<close>
  "tie_data =
     \<lparr>channels =
        [\<lparr>c_id = ''1'', c_name = ''#general'', c_group = ''S1'', c_type = ''GUILD_TEXT'',
          message_count = 0, recipients = []\<rparr>,
         \<lparr>c_id = ''2'', c_name = ''#general'', c_group = ''S2'', c_type = ''GUILD_TEXT'',
          message_count = 1, recipients = []\<rparr>,
         \<lparr>c_id = ''3'', c_name = ''#general'', c_group = ''S1'', c_type = ''GUILD_TEXT'',
          message_count = 1, recipients = []\<rparr>],
      messages = [hello_in ''S2'', hello_in ''S1''],
      user = no_user\<rparr>"

definition three_channels :: "channel list" where
  \<comment> \<open>two channels of one server and a direct message\<close>
  "three_channels =
     [\<lparr>c_id = ''1'', c_name = ''#general'', c_group = ''My Server'', c_type = ''GUILD_TEXT'',
       message_count = 2, recipients = []\<rparr>,
      \<lparr>c_id = ''2'', c_name = ''Alex'', c_group = ''Direct Messages'', c_type = ''DM'',
       message_count = 4, recipients = []\<rparr>,
      \<lparr>c_id = ''3'', c_name = ''#random'', c_group = ''My Server'', c_type = ''GUILD_TEXT'',
       message_count = 5, recipients = []\<rparr>]"

subsection \<open>The days of a stream, in the words of the specification\<close>




section \<open>Facts about the string operations\<close>

lemma startswith_append [simp]: "startswith (p @ r) p"
  by (simp add: startswith_def)

lemma startswith_iff: "startswith s p \<longleftrightarrow> (\<exists>r. s = p @ r)"
  unfolding startswith_def
  by (metis append_eq_conv_conj append_take_drop_id)

lemma find_sub_Some:
  "find_sub sep s = Some i \<Longrightarrow> \<exists>r. s = take i s @ sep @ r"
proof (induction s arbitrary: i)
  case Nil
  then show ?case by (simp split: if_splits)
next
  case (Cons c s)
  show ?case
  proof (cases "startswith (c # s) sep")
    case True
    with Cons.prems have "i = 0" by simp
    with True show ?thesis by (simp add: startswith_iff)
  next
    case False
    with Cons.prems obtain j where j: "find_sub sep s = Some j" "i = Suc j"
      by auto
    from Cons.IH [OF j(1)] obtain r where "s = take j s @ sep @ r" ..
    with j(2) show ?thesis by (metis append_Cons take_Suc_Cons)
  qed
qed

lemma find_sub_first:
  "s = l @ sep @ r \<Longrightarrow> \<exists>i. find_sub sep s = Some i \<and> i \<le> length l"
proof (induction s arbitrary: l)
  case Nil
  then show ?case by simp
next
  case (Cons c s)
  show ?case
  proof (cases "startswith (c # s) sep")
    case True
    then show ?thesis by simp
  next
    case False
    have "l \<noteq> []"
    proof
      assume "l = []"
      with Cons.prems have "c # s = sep @ r" by simp
      then have "startswith (c # s) sep" by (simp add: startswith_iff)
      with False show False ..
    qed
    then obtain l' where l': "l = c # l'"
      using Cons.prems by (cases l) auto
    with Cons.prems have "s = l' @ sep @ r" by simp
    from Cons.IH [OF this] obtain j where "find_sub sep s = Some j" "j \<le> length l'"
      by blast
    with False l' show ?thesis by simp
  qed
qed

lemma find_sub_None:
  "find_sub sep s = None \<longleftrightarrow> \<not> (\<exists>l r. s = l @ sep @ r)"
proof
  assume n: "find_sub sep s = None"
  show "\<not> (\<exists>l r. s = l @ sep @ r)"
  proof
    assume "\<exists>l r. s = l @ sep @ r"
    then obtain l r where "s = l @ sep @ r" by blast
    from find_sub_first [OF this] n show False by simp
  qed
next
  assume n: "\<not> (\<exists>l r. s = l @ sep @ r)"
  show "find_sub sep s = None"
  proof (cases "find_sub sep s")
    case None
    then show ?thesis .
  next
    case (Some i)
    from find_sub_Some [OF this] n show ?thesis by blast
  qed
qed


section \<open>Guild channels\<close>

text \<open>
  C8. For a channel whose type is neither \<open>DM\<close> nor \<open>GROUP_DM\<close>: when the hint
  contains \<open>" in "\<close> it is split at the first occurrence (no occurrence starts
  earlier), the display name is \<open>#\<close> followed by the left part and the group is the
  right part; when the hint does not contain it, the display name is \<open>#\<close> followed by
  the raw channel name, or by the channel id when the raw name is empty, and the group
  is the guild name, or \<open>Unknown Server\<close> when the guild name is empty. The hint
  \<open>general in My Server\<close> gives \<open>#general\<close> and \<open>My Server\<close>.
\<close>

theorem resolve_guild_channel:
  "ch_type \<noteq> ''DM'' \<and> ch_type \<noteq> ''GROUP_DM'' \<longrightarrow>
     ((\<forall>l r. idx_val = l @ '' in '' @ r
          \<and> (\<forall>l' r'. idx_val = l' @ '' in '' @ r' \<longrightarrow> length l \<le> length l')
        \<longrightarrow> resolve ch_type ch_name guild_name channel_id idx_val = (''#'' @ l, r))
    \<and> ((\<nexists>l r. idx_val = l @ '' in '' @ r)
        \<longrightarrow> resolve ch_type ch_name guild_name channel_id idx_val =
            (''#'' @ (if ch_name \<noteq> [] then ch_name else channel_id),
             if guild_name \<noteq> [] then guild_name else ''Unknown Server''))
    \<and> resolve ch_type ''chat'' ''Guild'' ''42'' ''general in My Server'' =
        (''#general'', ''My Server''))"
proof (intro impI conjI allI)
  fix l r
  assume t: "ch_type \<noteq> ''DM'' \<and> ch_type \<noteq> ''GROUP_DM''"
  assume h: "idx_val = l @ '' in '' @ r
    \<and> (\<forall>l' r'. idx_val = l' @ '' in '' @ r' \<longrightarrow> length l \<le> length l')"
  from h find_sub_first [of idx_val l "'' in ''" r]
  obtain i where i: "find_sub '' in '' idx_val = Some i" "i \<le> length l" by blast
  from find_sub_Some [OF i(1)]
  obtain r' where r': "idx_val = take i idx_val @ '' in '' @ r'" ..
  with h have "length l \<le> length (take i idx_val)" by blast
  with i(2) have il: "i = length l" by simp
  with h have "take i idx_val = l" "drop (i + length '' in '') idx_val = r"
    by simp_all
  with t i(1) show "resolve ch_type ch_name guild_name channel_id idx_val = (''#'' @ l, r)"
    by (simp add: resolve_def contains_def split1_def)
next
  assume t: "ch_type \<noteq> ''DM'' \<and> ch_type \<noteq> ''GROUP_DM''"
  assume "\<nexists>l r. idx_val = l @ '' in '' @ r"
  then have "find_sub '' in '' idx_val = None" by (simp add: find_sub_None)
  with t show "resolve ch_type ch_name guild_name channel_id idx_val =
      (''#'' @ (if ch_name \<noteq> [] then ch_name else channel_id),
       if guild_name \<noteq> [] then guild_name else ''Unknown Server'')"
    by (simp add: resolve_def contains_def or_else_def)
next
  assume t: "ch_type \<noteq> ''DM'' \<and> ch_type \<noteq> ''GROUP_DM''"
  then show "resolve ch_type ''chat'' ''Guild'' ''42'' ''general in My Server'' =
      (''#general'', ''My Server'')"
    by (simp add: resolve_def contains_def split1_def startswith_def)
qed

theorem resolve_guild_channel_witness:
  "resolve ''GUILD_TEXT'' ''chat'' ''Guild'' ''42'' ''general in My Server'' =
     (''#general'', ''My Server'')
   \<and> resolve ''GUILD_TEXT'' ''chat'' '''' ''42'' ''no separator'' =
     (''#chat'', ''Unknown Server'')
   \<and> resolve ''GUILD_TEXT'' '''' ''Guild'' ''42'' '''' = (''#42'', ''Guild'')"
proof -
  have t: "''GUILD_TEXT'' \<noteq> ''DM'' \<and> ''GUILD_TEXT'' \<noteq> ''GROUP_DM''" by simp
  have n1: "\<nexists>l r. ''no separator'' = l @ '' in '' @ r"
    unfolding find_sub_None [symmetric] by (simp add: startswith_def)
  have n2: "\<nexists>l r. '''' = l @ '' in '' @ (r::string)" by simp
  from resolve_guild_channel [of "''GUILD_TEXT''" "''no separator''" "''chat''" "''''" "''42''"]
    resolve_guild_channel [of "''GUILD_TEXT''" "''''" "''''" "''Guild''" "''42''"]
    t n1 n2
  show ?thesis by simp
qed

section \<open>Direct messages\<close>

lemma first_concat_map:
  "(case concat (map f xs) of [] \<Rightarrow> None | y # _ \<Rightarrow> Some y) =
   (case List.find (\<lambda>x. f x \<noteq> []) xs of None \<Rightarrow> None | Some x \<Rightarrow> Some (hd (f x)))"
proof (induction xs)
  case Nil
  then show ?case by simp
next
  case (Cons a xs)
  show ?case
  proof (cases "f a")
    case Nil
    with Cons show ?thesis by simp
  next
    case (Cons y ys)
    then show ?thesis by simp
  qed
qed

lemma newline_not_digit: "\<not> is_digit newline"
  by (simp add: is_digit_def newline_def)

lemma rx_end_drop_digits:
  assumes "k < length (takeWhile is_digit r)"
  shows "\<not> rx_end (drop k r)"
proof -
  let ?ds = "takeWhile is_digit r"
  have "drop k (?ds @ dropWhile is_digit r) = drop k ?ds @ dropWhile is_digit r"
    using assms by (simp del: takeWhile_dropWhile_id)
  then have "drop k r = drop k ?ds @ dropWhile is_digit r"
    by (simp only: takeWhile_dropWhile_id)
  moreover from assms obtain c cs where c: "drop k ?ds = c # cs"
    by (cases "drop k ?ds") auto
  then have "c \<in> set ?ds" by (metis in_set_dropD list.set_intros(1))
  then have "is_digit c" by (meson set_takeWhileD)
  ultimately show ?thesis using c newline_not_digit
    by (auto simp: rx_end_def)
qed

lemma discriminator_end:
  "(\<exists>s3 \<in> set (rx_optional
       (\<lambda>s. [s''. s' \<leftarrow> rx_literal ''#'' s, s'' \<leftarrow> rx_plus_greedy is_digit s']) s2). rx_end s3)
   \<longleftrightarrow> follows_name s2"
proof (cases "startswith s2 ''#''")
  case False
  then show ?thesis
    by (simp add: rx_optional_def rx_literal_def follows_name_def)
next
  case True
  let ?r = "drop 1 s2"
  let ?n = "length (takeWhile is_digit ?r)"
  have set_eq: "set (rx_optional
       (\<lambda>s. [s''. s' \<leftarrow> rx_literal ''#'' s, s'' \<leftarrow> rx_plus_greedy is_digit s']) s2)
        = insert s2 ((\<lambda>k. drop k ?r) ` {1 .. ?n})"
    using True by (auto simp: rx_optional_def rx_literal_def rx_plus_greedy_def)
  have "(\<exists>k \<in> {1 .. ?n}. rx_end (drop k ?r))
      \<longleftrightarrow> (takeWhile is_digit ?r \<noteq> [] \<and> rx_end (drop ?n ?r))"
  proof
    assume "\<exists>k \<in> {1 .. ?n}. rx_end (drop k ?r)"
    then obtain k where k: "1 \<le> k" "k \<le> ?n" "rx_end (drop k ?r)" by auto
    with rx_end_drop_digits [of k ?r] have "k = ?n" by (cases "k < ?n") auto
    with k show "takeWhile is_digit ?r \<noteq> [] \<and> rx_end (drop ?n ?r)" by auto
  next
    assume a: "takeWhile is_digit ?r \<noteq> [] \<and> rx_end (drop ?n ?r)"
    then have "1 \<le> ?n" by (cases "takeWhile is_digit ?r") simp_all
    then have "?n \<in> {1 .. ?n}" by (simp only: atLeastAtMost_iff le_refl simp_thms)
    with a show "\<exists>k \<in> {1 .. ?n}. rx_end (drop k ?r)" by blast
  qed
  moreover have "drop ?n ?r = dropWhile is_digit ?r"
    by (simp add: dropWhile_eq_drop)
  ultimately show ?thesis
    using True unfolding set_eq follows_name_def by auto
qed


lemma rx_literal_append: "rx_literal p (p @ r) = [r]"
  by (simp add: rx_literal_def)

lemma dm_match_no_prefix:
  "\<not> startswith idx_val ''Direct Message with '' \<Longrightarrow> dm_match idx_val = None"
  by (simp add: dm_match_def dm_matches_def rx_literal_def)

lemma dm_match_find:
  assumes "idx_val = ''Direct Message with '' @ rest"
  shows "dm_match idx_val =
     (case List.find (\<lambda>k. follows_name (drop k rest))
             [1 ..< Suc (length (takeWhile (\<lambda>c. c \<noteq> newline) rest))] of
        None \<Rightarrow> None
      | Some k \<Rightarrow> Some (take k rest))"
proof -
  let ?g = "\<lambda>s. [s''. s' \<leftarrow> rx_literal ''#'' s, s'' \<leftarrow> rx_plus_greedy is_digit s']"
  let ?X = "\<lambda>k. concat (map (\<lambda>s3. if rx_end s3 then [take k rest] else [])
                      (rx_optional ?g (drop k rest)))"
  let ?ks = "[1 ..< Suc (length (takeWhile (\<lambda>c. c \<noteq> newline) rest))]"
  have m: "dm_matches idx_val = concat (map ?X ?ks)"
    unfolding dm_matches_def assms rx_literal_append rx_plus_lazy_def
    by (simp add: comp_def del: upt_Suc)
  have ne: "?X k \<noteq> [] \<longleftrightarrow> follows_name (drop k rest)" for k
    using discriminator_end [of "drop k rest"] by auto
  have hd: "?X k \<noteq> [] \<Longrightarrow> hd (?X k) = take k rest" for k
  proof -
    assume "?X k \<noteq> []"
    then have "hd (?X k) \<in> set (?X k)" by (rule hd_in_set)
    then show ?thesis by (auto split: if_splits)
  qed
  have "dm_match idx_val =
      (case List.find (\<lambda>k. ?X k \<noteq> []) ?ks of None \<Rightarrow> None | Some k \<Rightarrow> Some (hd (?X k)))"
    unfolding dm_match_def m by (rule first_concat_map)
  also have "\<dots> = (case List.find (\<lambda>k. follows_name (drop k rest)) ?ks of
                      None \<Rightarrow> None | Some k \<Rightarrow> Some (take k rest))"
  proof (cases "List.find (\<lambda>k. ?X k \<noteq> []) ?ks")
    case None
    then show ?thesis by (simp only: ne option.case)
  next
    case (Some k)
    then have "?X k \<noteq> []" by (auto simp: find_Some_iff)
    then have "hd (?X k) = take k rest" by (rule hd)
    with Some show ?thesis by (simp only: ne option.case)
  qed
  finally show ?thesis .
qed

lemma find_upt_Some:
  assumes "List.find P [a ..< b] = Some k"
  shows "P k" and "a \<le> k" and "k < b" and "\<And>j. a \<le> j \<Longrightarrow> j < k \<Longrightarrow> \<not> P j"
proof -
  from assms obtain i where i: "i < length [a ..< b]" "P ([a ..< b] ! i)"
      "k = [a ..< b] ! i" "\<forall>j<i. \<not> P ([a ..< b] ! j)"
    unfolding find_Some_iff by blast
  then have ki: "k = a + i" "i < b - a" by simp_all
  from i(2,3) show "P k" by simp
  from ki show "a \<le> k" "k < b" by simp_all
  fix j assume j: "a \<le> j" "j < k"
  then have "j - a < i" using ki by simp
  with i(4) have "\<not> P ([a ..< b] ! (j - a))" by blast
  moreover have "[a ..< b] ! (j - a) = j" using j ki by simp
  ultimately show "\<not> P j" by simp
qed

lemma newline_free_prefix:
  assumes "rest = friend @ t" "newline \<notin> set friend"
  shows "length friend \<le> length (takeWhile (\<lambda>c. c \<noteq> newline) rest)"
proof -
  have "takeWhile (\<lambda>c. c \<noteq> newline) (friend @ t) = friend @ takeWhile (\<lambda>c. c \<noteq> newline) t"
    using assms(2) by (intro takeWhile_append2) auto
  with assms(1) show ?thesis by simp
qed

lemma dm_match_Some:
  assumes "idx_val = ''Direct Message with '' @ friend @ t"
    and "is_name friend" and "follows_name t"
    and least: "\<And>friend' t'. idx_val = ''Direct Message with '' @ friend' @ t'
          \<Longrightarrow> is_name friend' \<Longrightarrow> follows_name t' \<Longrightarrow> length friend \<le> length friend'"
  shows "dm_match idx_val = Some friend"
proof -
  define rest where "rest = friend @ t"
  let ?m = "length (takeWhile (\<lambda>c. c \<noteq> newline) rest)"
  let ?ks = "[1 ..< Suc ?m]"
  let ?P = "\<lambda>k. follows_name (drop k rest)"
  have idx: "idx_val = ''Direct Message with '' @ rest"
    using assms(1) by (simp add: rest_def)
  have len: "length friend \<le> ?m"
    using assms(2) by (intro newline_free_prefix [of rest friend t]) (auto simp: is_name_def rest_def)
  have pos: "1 \<le> length friend" using assms(2) by (cases friend) (auto simp: is_name_def)
  have tk: "take (length friend) rest = friend" and dr: "drop (length friend) rest = t"
    by (simp_all add: rest_def)
  have "length friend \<in> set ?ks" using len pos by auto
  moreover have Pf: "?P (length friend)" using assms(3) dr by simp
  ultimately have "List.find ?P ?ks \<noteq> None" unfolding find_None_iff by blast
  then obtain k where k: "List.find ?P ?ks = Some k" by blast
  note fk = find_upt_Some [of ?P 1 "Suc ?m" k, OF k]
  have kP: "?P k" by (rule fk(1))
  have k1: "1 \<le> k" by (rule fk(2))
  have km: "k \<le> ?m" using fk(3) by simp
  have "set (take k rest) \<subseteq> set (takeWhile (\<lambda>c. c \<noteq> newline) rest)"
    using km by (metis set_take_subset take_all takeWhile_eq_take take_take min.absorb1 order_refl)
  then have nl: "newline \<notin> set (take k rest)"
    by (auto dest: set_takeWhileD)
  have "rest \<noteq> []" using pos by (auto simp: rest_def)
  then have "take k rest \<noteq> []" using k1 by (cases rest) auto
  with nl have nm: "is_name (take k rest)" by (simp add: is_name_def)
  have "idx_val = ''Direct Message with '' @ take k rest @ drop k rest"
    using idx by simp
  from least [OF this nm kP] have "length friend \<le> length (take k rest)" .
  then have "length friend \<le> k" by simp
  moreover have "k \<le> length friend"
  proof (rule ccontr)
    assume "\<not> k \<le> length friend"
    then have "length friend < k" by simp
    with fk(4) [of "length friend"] pos Pf show False by blast
  qed
  ultimately have "k = length friend" by simp
  with k tk show ?thesis unfolding dm_match_find [OF idx] by simp
qed

lemma dm_match_None:
  assumes "\<nexists>friend t. idx_val = ''Direct Message with '' @ friend @ t
             \<and> is_name friend \<and> follows_name t"
  shows "dm_match idx_val = None"
proof (cases "startswith idx_val ''Direct Message with ''")
  case False
  then show ?thesis by (rule dm_match_no_prefix)
next
  case True
  then obtain rest where idx: "idx_val = ''Direct Message with '' @ rest"
    unfolding startswith_iff by blast
  let ?m = "length (takeWhile (\<lambda>c. c \<noteq> newline) rest)"
  let ?ks = "[1 ..< Suc ?m]"
  let ?P = "\<lambda>k. follows_name (drop k rest)"
  have "List.find ?P ?ks = None"
  proof (rule ccontr)
    assume "List.find ?P ?ks \<noteq> None"
    then obtain k where "k \<in> set ?ks" "?P k" by (auto simp: find_None_iff)
    then have k1: "1 \<le> k" and km: "k \<le> ?m" by auto
    have "set (take k rest) \<subseteq> set (takeWhile (\<lambda>c. c \<noteq> newline) rest)"
      using km by (metis set_take_subset take_all takeWhile_eq_take take_take min.absorb1 order_refl)
    then have nl: "newline \<notin> set (take k rest)"
      by (auto dest: set_takeWhileD)
    have "rest \<noteq> []" using k1 km by auto
    then have "take k rest \<noteq> []" using k1 by (cases rest) auto
    with nl have "is_name (take k rest)" by (simp add: is_name_def)
    moreover have "idx_val = ''Direct Message with '' @ take k rest @ drop k rest"
      using idx by simp
    ultimately show False using assms \<open>?P k\<close> by blast
  qed
  then show ?thesis unfolding dm_match_find [OF idx] by simp
qed


lemma dm_match_example: "dm_match ''Direct Message with Alex#0001'' = Some ''Alex''"
  by code_simp

text \<open>
  C7, as amended. For a channel of type \<open>DM\<close> the group is \<open>Direct Messages\<close>. When
  the hint is \<open>Direct Message with\<close>, a name and what may follow a name, the display
  name is the shortest such name (the match is not greedy). When the hint has no such
  reading, the display name is the hint with every occurrence of the literal
  \<open>Direct Message with\<close> removed, wherever it stands, not only a leading one. The
  hint \<open>Direct Message with Alex#0001\<close> gives \<open>Alex\<close> and \<open>Direct Messages\<close>.
\<close>

theorem resolve_dm:
  "snd (resolve ''DM'' ch_name guild_name channel_id idx_val) = ''Direct Messages''
   \<and> (\<forall>friend t.
         idx_val = ''Direct Message with '' @ friend @ t \<and> is_name friend \<and> follows_name t
         \<and> (\<forall>friend' t'.
               idx_val = ''Direct Message with '' @ friend' @ t' \<and> is_name friend'
               \<and> follows_name t' \<longrightarrow> length friend \<le> length friend')
         \<longrightarrow> fst (resolve ''DM'' ch_name guild_name channel_id idx_val) = friend)
   \<and> ((\<nexists>friend t.
          idx_val = ''Direct Message with '' @ friend @ t \<and> is_name friend \<and> follows_name t)
        \<longrightarrow> fst (resolve ''DM'' ch_name guild_name channel_id idx_val) =
            replace idx_val ''Direct Message with '' [])
   \<and> resolve ''DM'' ch_name guild_name channel_id ''Direct Message with Alex#0001'' =
       (''Alex'', ''Direct Messages'')"
proof (intro conjI allI impI)
  show "snd (resolve ''DM'' ch_name guild_name channel_id idx_val) = ''Direct Messages''"
    by (simp add: resolve_def)
next
  fix friend t
  assume h: "idx_val = ''Direct Message with '' @ friend @ t \<and> is_name friend \<and> follows_name t
         \<and> (\<forall>friend' t'.
               idx_val = ''Direct Message with '' @ friend' @ t' \<and> is_name friend'
               \<and> follows_name t' \<longrightarrow> length friend \<le> length friend')"
  then have "dm_match idx_val = Some friend"
    by (intro dm_match_Some [of idx_val friend t]) blast+
  then show "fst (resolve ''DM'' ch_name guild_name channel_id idx_val) = friend"
    by (simp add: resolve_def)
next
  assume "\<nexists>friend t.
      idx_val = ''Direct Message with '' @ friend @ t \<and> is_name friend \<and> follows_name t"
  then have "dm_match idx_val = None" by (rule dm_match_None)
  then show "fst (resolve ''DM'' ch_name guild_name channel_id idx_val) =
      replace idx_val ''Direct Message with '' []"
    by (simp add: resolve_def)
next
  show "resolve ''DM'' ch_name guild_name channel_id ''Direct Message with Alex#0001'' =
       (''Alex'', ''Direct Messages'')"
    by (simp add: resolve_def dm_match_example)
qed

theorem resolve_dm_witness:
  "fst (resolve ''DM'' [] [] ''1'' ''Direct Message with A'') = ''A''
   \<and> fst (resolve ''DM'' [] [] ''1'' ''Old Direct Message with Alex'') =
       replace ''Old Direct Message with Alex'' ''Direct Message with '' []
   \<and> resolve ''DM'' [] [] ''1'' ''Direct Message with Alex#0001'' =
       (''Alex'', ''Direct Messages'')"
proof -
  have a: "''Direct Message with A'' = ''Direct Message with '' @ ''A'' @ []
      \<and> is_name ''A'' \<and> follows_name []
      \<and> (\<forall>friend' t'.
            ''Direct Message with A'' = ''Direct Message with '' @ friend' @ t'
            \<and> is_name friend' \<and> follows_name t' \<longrightarrow> length ''A'' \<le> length friend')"
  proof (intro conjI allI impI)
    fix friend' t'
    assume "''Direct Message with A'' = ''Direct Message with '' @ friend' @ t'
            \<and> is_name friend' \<and> follows_name t'"
    then have "friend' \<noteq> []" by (simp add: is_name_def)
    then show "length ''A'' \<le> length friend'" by (cases friend') simp_all
  qed (simp_all add: is_name_def follows_name_def rx_end_def newline_def)
  have b: "\<nexists>friend t.
      ''Old Direct Message with Alex'' = ''Direct Message with '' @ friend @ t
      \<and> is_name friend \<and> follows_name t"
    by simp
  from resolve_dm [of "[]" "[]" "''1''" "''Direct Message with A''"] a
  have 1: "fst (resolve ''DM'' [] [] ''1'' ''Direct Message with A'') = ''A''"
    by blast
  from resolve_dm [of "[]" "[]" "''1''" "''Old Direct Message with Alex''"] b
  have 2: "fst (resolve ''DM'' [] [] ''1'' ''Old Direct Message with Alex'') =
       replace ''Old Direct Message with Alex'' ''Direct Message with '' []"
    by blast
  from resolve_dm [of "[]" "[]" "''1''" "[]"]
  have 3: "resolve ''DM'' [] [] ''1'' ''Direct Message with Alex#0001'' =
       (''Alex'', ''Direct Messages'')"
    by blast
  from 1 2 3 show ?thesis by blast
qed

text \<open>
  C7 as stated fails: where the pattern does not match, the display name is not the hint
  with the literal prefix stripped. In \<open>Old Direct Message with Alex\<close> the literal is
  not a prefix and is removed all the same; in a hint of two lines each occurrence is
  removed, not the leading one only.
\<close>

theorem resolve_dm_fallback_counterexample:
  "dm_match ''Old Direct Message with Alex'' = None
   \<and> fst (resolve ''DM'' [] [] ''1'' ''Old Direct Message with Alex'') = ''Old Alex''
   \<and> removeprefix ''Old Direct Message with Alex'' ''Direct Message with '' =
       ''Old Direct Message with Alex''
   \<and> dm_match (''Direct Message with A'' @ [newline] @ ''Direct Message with B'') = None
   \<and> fst (resolve ''DM'' [] [] ''1''
            (''Direct Message with A'' @ [newline] @ ''Direct Message with B'')) =
       ''A'' @ [newline] @ ''B''
   \<and> removeprefix (''Direct Message with A'' @ [newline] @ ''Direct Message with B'')
         ''Direct Message with '' =
       ''A'' @ [newline] @ ''Direct Message with B''"
  by code_simp

section \<open>Words and emoji of one message\<close>

lemmas scan_defs = findall_def class_plus_def first_match_length_def rx_plus_greedy_def
  rx_literal_def rx_optional_def rx_alt_def startswith_def encode_def hi_there_def
  is_upper_def is_lower_def is_decimal_def is_w_def is_word_char_def

lemma hi_there_not_empty: "hi_there \<noteq> []"
  by (simp add: hi_there_def encode_def)

lemma hi_there_emoji: "emoji_findall hi_there = [[0x1F600]]"
  by (simp add: emoji_findall_def in_emoji_ranges_def scan_defs)

lemma hi_there_custom_emoji: "discord_emoji_findall hi_there = [encode '':custom_emoji:'']"
  by (simp add: discord_emoji_findall_def discord_emoji_ways_def scan_defs)

lemma hi_there_words:
  "find_words hi_there =
     [encode ''hi'', encode ''there'', encode ''custom'', encode ''emoji'']"
  by (simp add: find_words_def lower_def scan_defs)

lemma hi_there_stopwords:
  "encode ''there'' \<in> set stopwords \<and> encode ''hi'' \<notin> set stopwords
   \<and> encode ''custom'' \<notin> set stopwords \<and> encode ''emoji'' \<notin> set stopwords"
  by (simp add: stopwords_def encode_def)

lemma hi_there_word_loop:
  "word_loop [with_contents hi_there] =
     [(encode ''hi'', 1), (encode ''custom'', 1), (encode ''emoji'', 1)]"
  using hi_there_stopwords
  by (simp add: word_loop_def contents_of_def with_contents_def get_or_def
      count_words_def hi_there_not_empty hi_there_words) (simp add: encode_def)

lemma hi_there_emoji_loop:
  "emoji_loop [with_contents hi_there] =
     [([0x1F600], 1), (encode '':custom_emoji:'', 1)]"
  by (simp add: emoji_loop_def contents_of_def with_contents_def get_or_def
      count_all_def hi_there_not_empty hi_there_emoji hi_there_custom_emoji)
     (simp add: encode_def)

text \<open>
  C10 as stated fails: before the stop words are filtered, the message contributes four
  tokens to the word count, not exactly \<open>hi\<close> and \<open>there\<close>. The letters of
  \<open>:custom_emoji:\<close> are read as the words \<open>custom\<close> and \<open>emoji\<close>.
\<close>

theorem hi_there_words_counterexample:
  "find_words hi_there \<noteq> [encode ''hi'', encode ''there'']"
  by (simp add: hi_there_words)

text \<open>
  C10, as amended. The message contributes exactly one match to the scan of the emoji
  ranges (the emoji itself) and exactly one match to the scan for custom emoji
  (\<open>:custom_emoji:\<close>); to the word count it contributes, before the stop words are
  filtered, the tokens \<open>hi\<close>, \<open>there\<close>, \<open>custom\<close> and \<open>emoji\<close>; \<open>there\<close> is in the
  stop word list and the other three are not, so that \<open>hi\<close>, \<open>custom\<close> and \<open>emoji\<close>
  are counted once each.
\<close>

theorem hi_there_contributions:
  "emoji_findall hi_there = [[0x1F600]]
   \<and> discord_emoji_findall hi_there = [encode '':custom_emoji:'']
   \<and> find_words hi_there =
       [encode ''hi'', encode ''there'', encode ''custom'', encode ''emoji'']
   \<and> encode ''there'' \<in> set stopwords
   \<and> encode ''hi'' \<notin> set stopwords
   \<and> encode ''custom'' \<notin> set stopwords
   \<and> encode ''emoji'' \<notin> set stopwords
   \<and> word_loop [with_contents hi_there] =
       [(encode ''hi'', 1), (encode ''custom'', 1), (encode ''emoji'', 1)]
   \<and> emoji_loop [with_contents hi_there] =
       [([0x1F600], 1), (encode '':custom_emoji:'', 1)]"
  using hi_there_emoji hi_there_custom_emoji hi_there_words hi_there_stopwords
    hi_there_word_loop hi_there_emoji_loop
  by blast

section \<open>Evaluating dates\<close>

lemmas strptime_defs = strptime_date_def strptime_datetime_def date_regex_def datetime_regex_def
  rx_year_def rx_month_def rx_day_def rx_hour_def rx_minute_def rx_second_def rx_alt_def
  rx_digit_def rx_digit2_def rx_literal_def rx_plus_greedy_def startswith_def is_digit_def
  digit_value_def is_space_def check_date_fields_def check_time_fields_def days_in_month_def
  is_leap_def DAYS_IN_MONTH_def

lemmas ordinal_defs = days_between_def toordinal_def days_before_year_def
  days_before_month_def DAYS_BEFORE_MONTH_def is_leap_def

lemma strptime_date_2024_01_01:
  "strptime_date ''2024-01-01'' =
     Inr \<lparr>year = 2024, month = 1, day = 1, hour = 0, minute = 0, second = 0\<rparr>"
  by (simp add: strptime_defs)

lemma strptime_date_2024_01_02:
  "strptime_date ''2024-01-02'' =
     Inr \<lparr>year = 2024, month = 1, day = 2, hour = 0, minute = 0, second = 0\<rparr>"
  by (simp add: strptime_defs)

lemma strptime_date_2024_01_03:
  "strptime_date ''2024-01-03'' =
     Inr \<lparr>year = 2024, month = 1, day = 3, hour = 0, minute = 0, second = 0\<rparr>"
  by (simp add: strptime_defs)

lemma strptime_date_2024_01_05:
  "strptime_date ''2024-01-05'' =
     Inr \<lparr>year = 2024, month = 1, day = 5, hour = 0, minute = 0, second = 0\<rparr>"
  by (simp add: strptime_defs)


section \<open>The longest streak\<close>

lemma streak_empty: "longest_streak_scan [] = Inr (1, [])"
  by (simp add: longest_streak_scan_def)

text \<open>
  The example of C4 holds: the four dates give a longest streak of 3 that starts on
  2024-01-01.
\<close>

lemma dates_example:
  "sort (msg_dates (map stamped
      [''2024-01-01 10:00:00'', ''2024-01-02 10:00:00'', ''2024-01-03 11:00:00'',
       ''2024-01-05 10:00:00''])) =
   [''2024-01-01'', ''2024-01-02'', ''2024-01-03'', ''2024-01-05'']"
  by (simp add: msg_dates_def stamped_def timestamp_of_def get_or_def)

lemma streak_example:
  "longest_streak_scan [''2024-01-01'', ''2024-01-02'', ''2024-01-03'', ''2024-01-05''] =
     Inr (3, ''2024-01-01'')"
  by (simp add: longest_streak_scan_def strptime_date_2024_01_01 strptime_date_2024_01_02
      strptime_date_2024_01_03 strptime_date_2024_01_05 ordinal_defs)

text \<open>
  C4 fails on the empty message stream. The set of dates is empty, so it has no run of
  consecutive dates, and the other defaults of an empty stream are 0 and the empty
  string; but \<open>current_streak\<close> starts at 1 and is compared with \<open>longest_streak = 0\<close>
  after the loop, so the code reports a longest streak of 1 day that starts at the empty
  string.
\<close>

theorem empty_stream_streak:
  "msg_dates (messages no_data) = []
   \<and> map_sum id (\<lambda>s. (longest_streak s, longest_streak_start s)) (compute_stats no_data) =
       Inr (1, [])"
  by (simp add: compute_stats_def no_data_def msg_dates_def streak_empty)


section \<open>Reading the archive\<close>

text \<open>
  C6 fails on an archive whose \<open>Messages/index.json\<close> is present and is not JSON: the
  container opens, and \<open>parse_package\<close> raises \<open>JSONDecodeError\<close>. The index and the
  profile are read under \<open>except KeyError\<close> only, where the two entries of a channel are
  read under \<open>except (KeyError, json.JSONDecodeError)\<close>.
\<close>

theorem malformed_index_raises:
  "parse_package (Some bad_index_archive) = Inl JSONDecodeError"
  by (simp add: parse_package_def load_index_def bad_index_archive_def)

section \<open>The total of the messages\<close>

lemma parse_small_archive: "parse_package (Some small_archive) = Inr small_data"
  by (simp add: parse_package_def load_index_def load_user_def small_archive_def
      channel_dirs_def startswith_def endswith_def second_component_def load_meta_def
      load_messages_def get_or_def resolve_def contains_def split1_def tag_def
      small_data_def in_general_def no_user_def Let_def)

lemma small_dates:
  "sort (msg_dates (messages small_data)) = [''2024-01-01'', ''2024-01-02'']"
  by (simp add: small_data_def in_general_def msg_dates_def timestamp_of_def get_or_def)

lemma small_streak:
  "longest_streak_scan [''2024-01-01'', ''2024-01-02''] = Inr (2, ''2024-01-01'')"
  by (simp add: longest_streak_scan_def strptime_date_2024_01_01 strptime_date_2024_01_02
      ordinal_defs)

lemma compute_small: "\<exists>s. compute_stats small_data = Inr s"
  by (simp add: compute_stats_def small_dates small_streak Let_def)

lemma channel_loop_counts:
  "channel_loop zf index cdirs (chans, msgs) = (chans', msgs')
   \<Longrightarrow> length msgs = sum_list (map message_count chans)
   \<Longrightarrow> length msgs' = sum_list (map message_count chans')"
proof (induction cdirs arbitrary: chans msgs)
  case Nil
  then show ?case by simp
next
  case (Cons cdir cdirs)
  show ?case
  proof (cases "load_meta zf cdir")
    case None
    with Cons.prems(1) have "channel_loop zf index cdirs (chans, msgs) = (chans', msgs')"
      by simp
    from Cons.IH [OF this Cons.prems(2)] show ?thesis .
  next
    case (Some meta)
    obtain display grp where r: "resolve (get_or (meta_type meta) ''UNKNOWN'')
        (get_or (meta_name meta) [])
        (case meta_guild meta of None \<Rightarrow> [] | Some guild \<Rightarrow> get_or (g_name guild) [])
        (drop 1 cdir) (get_or (index (drop 1 cdir)) []) = (display, grp)"
      by (cases "resolve (get_or (meta_type meta) ''UNKNOWN'')
        (get_or (meta_name meta) [])
        (case meta_guild meta of None \<Rightarrow> [] | Some guild \<Rightarrow> get_or (g_name guild) [])
        (drop 1 cdir) (get_or (index (drop 1 cdir)) [])") auto
    let ?c = "\<lparr>c_id = drop 1 cdir, c_name = display, c_group = grp,
                c_type = get_or (meta_type meta) ''UNKNOWN'',
                message_count = length (load_messages zf cdir),
                recipients = get_or (meta_recipients meta) []\<rparr>"
    let ?ms = "map (tag display grp (get_or (meta_type meta) ''UNKNOWN'')) (load_messages zf cdir)"
    from Cons.prems(1) Some r
    have "channel_loop zf index cdirs (chans @ [?c], msgs @ ?ms) = (chans', msgs')"
      by (simp add: Let_def)
    moreover have "length (msgs @ ?ms) = sum_list (map message_count (chans @ [?c]))"
      using Cons.prems(2) by simp
    ultimately show ?thesis by (rule Cons.IH)
  qed
qed

lemma parse_package_counts:
  assumes "parse_package container = Inr data"
  shows "length (messages data) = sum_list (map message_count (channels data))"
  using assms channel_loop_counts [where chans = "[]" and msgs = "[]", simplified]
  by (auto simp: parse_package_def Let_def split: option.splits sum.splits prod.splits)

lemma compute_stats_total:
  "compute_stats data = Inr s \<Longrightarrow> total_messages s = length (messages data)"
  by (auto simp: compute_stats_def Let_def split: sum.splits prod.splits)

text \<open>
  C2. For every archive that \<open>parse_package\<close> reads, the number of messages of the
  unified stream, which \<open>compute_stats\<close> reports as \<open>total_messages\<close>, is the sum of the
  \<open>message_count\<close> fields of the channel summaries.
\<close>

theorem total_messages_sum:
  "parse_package container = Inr data \<Longrightarrow>
     length (messages data) = sum_list (map message_count (channels data))
     \<and> (\<forall>s. compute_stats data = Inr s
            \<longrightarrow> total_messages s = sum_list (map message_count (channels data)))"
  using parse_package_counts [of container data] compute_stats_total [of data] by auto

theorem total_messages_sum_witness:
  "parse_package (Some small_archive) = Inr small_data
   \<and> sum_list (map message_count (channels small_data)) = 3
   \<and> (\<exists>s. compute_stats small_data = Inr s \<and> total_messages s = 3)"
proof -
  from compute_small obtain s where s: "compute_stats small_data = Inr s" ..
  have 3: "sum_list (map message_count (channels small_data)) = 3"
    by (simp add: small_data_def)
  from total_messages_sum [OF parse_small_archive] s 3
  have "total_messages s = 3" by simp
  with s 3 parse_small_archive show ?thesis by blast
qed

section \<open>Time buckets\<close>

lemma counter_get_add:
  "counter_get (counter_add k n c) h = counter_get c h + (if h = k then n else 0)"
  by (induction c) (auto simp: counter_get_def)








lemma counter_get_Nil [simp]: "counter_get [] k = 0"
  by (simp add: counter_get_def)







lemma compute_stats_fields:
  assumes "compute_stats data = Inr s"
  shows "total_messages s = length (messages data)"
    and "monthly s = monthly_of (messages data)"
    and "hourly s = hourly_of (messages data)"
    and "daily_dow s = daily_dow_of (messages data)"
    and "yearly s = yearly_of (messages data)"
    and "first_message s = first_message_of (messages data)"
    and "last_message s = last_message_of (messages data)"
    and "active_days s = active_days_of (messages data)"
    and "busiest_day s = fst (busiest_of (messages data))"
    and "busiest_day_count s = snd (busiest_of (messages data))"
    and "top_dms s = top_dms_of (channels data)"
    and "top_group_dms s = top_group_dms_of (channels data)"
    and "top_servers s = top_servers_of (channels data)"
    and "top_channels s = top_channels_of (channels data)"
    and "longest_streak_scan (sort (msg_dates (messages data))) =
           Inr (longest_streak s, longest_streak_start s)"
  using assms
  by (auto simp: compute_stats_def Let_def split: sum.splits prod.splits)




section \<open>First and last message, active days\<close>

lemma set_timestamps:
  "set (timestamps msgs) = {timestamp_of m |m. m \<in> set msgs \<and> timestamp_of m \<noteq> []}"
  by (auto simp: timestamps_def)

lemma set_msg_dates:
  "set (msg_dates msgs) = {take 10 (timestamp_of m) |m. m \<in> set msgs \<and> timestamp_of m \<noteq> []}"
  by (auto simp: msg_dates_def)

lemma timestamps_empty_iff: "timestamps msgs = [] \<longleftrightarrow> (\<forall>m \<in> set msgs. timestamp_of m = [])"
proof -
  have "timestamps msgs = [] \<longleftrightarrow> set (timestamps msgs) = {}" by simp
  then show ?thesis unfolding set_timestamps by auto
qed

lemma min_str_Min: "xs \<noteq> [] \<Longrightarrow> min_str xs = Min (set xs)"
proof (cases xs)
  case Nil
  assume "xs \<noteq> []"
  with Nil show ?thesis by simp
next
  case (Cons x r)
  have "(\<lambda>y m. if y < m then y else m) = (min :: string \<Rightarrow> string \<Rightarrow> string)"
    by (auto simp: fun_eq_iff min_def)
  with Cons Min.set_eq_fold [of x r] show ?thesis by (simp add: min_str_def)
qed

lemma max_str_Max: "xs \<noteq> [] \<Longrightarrow> max_str xs = Max (set xs)"
proof (cases xs)
  case Nil
  assume "xs \<noteq> []"
  with Nil show ?thesis by simp
next
  case (Cons x r)
  have "(\<lambda>y m. if y > m then y else m) = (max :: string \<Rightarrow> string \<Rightarrow> string)"
    by (auto simp: fun_eq_iff max_def)
  with Cons Max.set_eq_fold [of x r] show ?thesis by (simp add: max_str_def)
qed

lemma active_days_card: "length (msg_dates msgs) = card (set (msg_dates msgs))"
  by (simp add: msg_dates_def length_remdups_card_conv)

text \<open>
  C5, as amended. Whenever at least one message has a non-empty timestamp, parsable or
  not, \<open>first_message\<close> is the least and \<open>last_message\<close> the greatest of the non-empty
  timestamp strings in the lexicographic order (so \<open>first_message \<le> last_message\<close>),
  and \<open>active_days\<close> is the number of distinct first-10-character prefixes of these
  strings; when no message has a non-empty timestamp, \<open>first_message\<close> and
  \<open>last_message\<close> are the empty string and \<open>active_days\<close> is 0. These are the values
  that \<open>compute_stats\<close> returns.
\<close>

theorem first_last_active:
  "((\<exists>m \<in> set msgs. timestamp_of m \<noteq> []) \<longrightarrow>
      first_message_of msgs = Min {timestamp_of m |m. m \<in> set msgs \<and> timestamp_of m \<noteq> []}
      \<and> last_message_of msgs = Max {timestamp_of m |m. m \<in> set msgs \<and> timestamp_of m \<noteq> []}
      \<and> first_message_of msgs \<le> last_message_of msgs
      \<and> active_days_of msgs =
          card {take 10 (timestamp_of m) |m. m \<in> set msgs \<and> timestamp_of m \<noteq> []})
   \<and> ((\<forall>m \<in> set msgs. timestamp_of m = []) \<longrightarrow>
      first_message_of msgs = [] \<and> last_message_of msgs = [] \<and> active_days_of msgs = 0)
   \<and> (\<forall>s. compute_stats data = Inr s \<longrightarrow>
      first_message s = first_message_of (messages data)
      \<and> last_message s = last_message_of (messages data)
      \<and> active_days s = active_days_of (messages data))"
proof (intro conjI impI allI)
  assume "\<exists>m \<in> set msgs. timestamp_of m \<noteq> []"
  then have ne: "timestamps msgs \<noteq> []" by (simp add: timestamps_empty_iff)
  then show f: "first_message_of msgs =
      Min {timestamp_of m |m. m \<in> set msgs \<and> timestamp_of m \<noteq> []}"
    by (simp add: first_message_of_def min_str_Min set_timestamps)
  from ne show l: "last_message_of msgs =
      Max {timestamp_of m |m. m \<in> set msgs \<and> timestamp_of m \<noteq> []}"
    by (simp add: last_message_of_def max_str_Max set_timestamps)
  from ne obtain a where a: "a \<in> set (timestamps msgs)" by (cases "timestamps msgs") auto
  then have "Min (set (timestamps msgs)) \<le> a" "a \<le> Max (set (timestamps msgs))"
    by simp_all
  then have "Min (set (timestamps msgs)) \<le> Max (set (timestamps msgs))"
    by (rule order_trans)
  with f l show "first_message_of msgs \<le> last_message_of msgs"
    by (simp only: set_timestamps)
  from ne show "active_days_of msgs =
      card {take 10 (timestamp_of m) |m. m \<in> set msgs \<and> timestamp_of m \<noteq> []}"
    by (simp add: active_days_of_def active_days_card set_msg_dates)
next
  assume "\<forall>m \<in> set msgs. timestamp_of m = []"
  then have e: "timestamps msgs = []" by (simp add: timestamps_empty_iff)
  then show "first_message_of msgs = []" "last_message_of msgs = []" "active_days_of msgs = 0"
    by (simp_all add: first_message_of_def last_message_of_def active_days_of_def)
next
  fix s assume s: "compute_stats data = Inr s"
  then show "first_message s = first_message_of (messages data)"
    "last_message s = last_message_of (messages data)"
    "active_days s = active_days_of (messages data)"
    by (rule compute_stats_fields)+
qed

lemma parsed_T: "parsed_timestamp (stamped ''2024-01-01T12:00:00'') = None"
  by (simp add: parsed_timestamp_def stamped_def timestamp_of_def get_or_def strptime_defs)

lemma dates_T: "sort (msg_dates [stamped ''2024-01-01T12:00:00'']) = [''2024-01-01'']"
  by (simp add: msg_dates_def stamped_def timestamp_of_def get_or_def)

lemma streak_single: "longest_streak_scan [d] = Inr (1, d)"
  by (simp add: longest_streak_scan_def)

text \<open>
  C5 as stated fails: lines 289 to 297 test whether a timestamp is non-empty, not whether
  it parses. For a stream whose only timestamp does not parse, \<open>first_message\<close> and
  \<open>last_message\<close> are that timestamp, not the empty string, and \<open>active_days\<close> is 1.
\<close>

theorem no_parsable_timestamp_counterexample:
  "parsed_timestamp (stamped ''2024-01-01T12:00:00'') = None
   \<and> map_sum id (\<lambda>s. (first_message s, last_message s, active_days s))
        (compute_stats (stream [stamped ''2024-01-01T12:00:00''])) =
       Inr (''2024-01-01T12:00:00'', ''2024-01-01T12:00:00'', 1)"
  by (simp add: parsed_T compute_stats_def stream_def dates_T streak_single Let_def
      first_message_of_def last_message_of_def active_days_of_def timestamps_def
      min_str_def max_str_def)
     (simp add: stamped_def timestamp_of_def get_or_def msg_dates_def)

theorem first_last_active_witness:
  "first_message_of (messages small_data) \<le> last_message_of (messages small_data)
   \<and> first_message_of [with_contents hi_there] = []
   \<and> active_days_of [with_contents hi_there] = 0
   \<and> (\<exists>s. compute_stats small_data = Inr s
          \<and> first_message s = first_message_of (messages small_data))"
proof -
  have a: "\<exists>m \<in> set (messages small_data). timestamp_of m \<noteq> []"
    by (simp add: small_data_def in_general_def timestamp_of_def get_or_def)
  have b: "\<forall>m \<in> set [with_contents hi_there]. timestamp_of m = []"
    by (simp add: with_contents_def timestamp_of_def get_or_def)
  from compute_small obtain s where s: "compute_stats small_data = Inr s" ..
  from first_last_active [of "messages small_data" small_data] a
  have 1: "first_message_of (messages small_data) \<le> last_message_of (messages small_data)"
    by blast
  from first_last_active [of "[with_contents hi_there]" small_data] b
  have 2: "first_message_of [with_contents hi_there] = []"
      "active_days_of [with_contents hi_there] = 0"
    by blast+
  from first_last_active [of "[]" small_data] s
  have 3: "first_message s = first_message_of (messages small_data)"
    by blast
  from 1 2 3 s show ?thesis by blast
qed

section \<open>Rankings\<close>

lemma stable_order_unique:
  fixes f :: "'a \<Rightarrow> nat"
  assumes "sorted_wrt (\<lambda>a b. f a \<ge> f b) xs" and "sorted_wrt (\<lambda>a b. f a \<ge> f b) ys"
    and "\<And>k. [e \<leftarrow> xs. f e = k] = [e \<leftarrow> ys. f e = k]"
  shows "xs = ys"
  using assms
proof (induction xs arbitrary: ys)
  case Nil
  show ?case
  proof (cases ys)
    case Nil
    then show ?thesis by simp
  next
    case (Cons y ys')
    with Nil.prems(3) [of "f y"] show ?thesis by simp
  qed
next
  case (Cons x xs)
  from Cons.prems(3) [of "f x"] have hx: "x # [e \<leftarrow> xs. f e = f x] = [e \<leftarrow> ys. f e = f x]"
    by simp
  then obtain y ys' where ys: "ys = y # ys'" by (cases ys) auto
  from hx have "x \<in> set [e \<leftarrow> ys. f e = f x]" by (metis list.set_intros(1))
  then have "x \<in> set ys" by simp
  with Cons.prems(2) ys have le1: "f x \<le> f y" by auto
  have "y \<in> set [e \<leftarrow> ys. f e = f y]" using ys by simp
  then have "y \<in> set [e \<leftarrow> x # xs. f e = f y]" by (simp only: Cons.prems(3))
  then have "y \<in> set (x # xs)" using filter_is_subset [of _ "x # xs"] by blast
  with Cons.prems(1) have le2: "f y \<le> f x" by auto
  from le1 le2 have eq: "f y = f x" by simp
  with hx ys have xy: "x = y" by simp
  have tl: "[e \<leftarrow> xs. f e = k] = [e \<leftarrow> ys'. f e = k]" for k
    using Cons.prems(3) [of k] ys xy by (cases "f y = k") simp_all
  from Cons.prems(1) have s1: "sorted_wrt (\<lambda>a b. f a \<ge> f b) xs" by simp
  from Cons.prems(2) ys have s2: "sorted_wrt (\<lambda>a b. f a \<ge> f b) ys'" by simp
  from Cons.IH [OF s1 s2 tl] xy ys show ?case by simp
qed

lemma sort_by_count_sorted: "sorted_wrt (\<lambda>a b. count a \<ge> count b) (sort_by_count xs)"
proof -
  let ?f = "\<lambda>x::'a ranked_scheme. - int (count x)"
  have "sorted (map ?f (sort_key ?f xs))" by (rule sorted_sort_key)
  then have "sorted_wrt (\<lambda>a b. ?f a \<le> ?f b) (sort_key ?f xs)" by (simp only: sorted_map)
  then have "sorted_wrt (\<lambda>a b. count a \<ge> count b) (sort_key ?f xs)"
    by (rule sorted_wrt_mono_rel [rotated]) simp
  then show ?thesis by (simp only: sort_by_count_def)
qed

lemma sort_by_count_stable:
  "[e \<leftarrow> sort_by_count xs. count e = k] = [e \<leftarrow> xs. count e = k]"
proof -
  let ?f = "\<lambda>x::'a ranked_scheme. - int (count x)"
  have "(\<lambda>e::'a ranked_scheme. count e = k) = (\<lambda>e. ?f e = - int k)" by auto
  then show ?thesis
    using sort_key_stable [of ?f "- int k" xs] by (simp add: sort_by_count_def)
qed

lemma set_sort_by_count: "set (sort_by_count xs) = set xs"
  by (simp add: sort_by_count_def)

lemma is_ranking_iff: "is_ranking cap xs r \<longleftrightarrow> r = take cap (sort_by_count xs)"
proof
  assume "is_ranking cap xs r"
  then obtain ordered where o: "sorted_wrt (\<lambda>a b. count a \<ge> count b) ordered"
      "\<And>k. [e \<leftarrow> ordered. count e = k] = [e \<leftarrow> xs. count e = k]" "r = take cap ordered"
    unfolding is_ranking_def by blast
  have "ordered = sort_by_count xs"
    by (rule stable_order_unique [where f = count, OF o(1) sort_by_count_sorted])
       (simp add: o(2) sort_by_count_stable)
  with o(3) show "r = take cap (sort_by_count xs)" by simp
next
  assume "r = take cap (sort_by_count xs)"
  then show "is_ranking cap xs r"
    unfolding is_ranking_def using sort_by_count_sorted sort_by_count_stable by blast
qed

lemma is_ranking_unique: "is_ranking cap xs r \<Longrightarrow> is_ranking cap xs r' \<Longrightarrow> r = r'"
  by (simp add: is_ranking_iff)

lemma is_ranking_subset: "is_ranking cap xs ys \<Longrightarrow> e \<in> set ys \<Longrightarrow> e \<in> set xs"
  using set_take_subset [of cap "sort_by_count xs"]
  by (auto simp: is_ranking_iff set_sort_by_count)

lemma is_ranking_length: "is_ranking cap xs ys \<Longrightarrow> length ys \<le> cap"
  by (simp add: is_ranking_iff)

lemma is_ranking_sorted: "is_ranking cap xs ys \<Longrightarrow> sorted_wrt (\<lambda>a b. count a \<ge> count b) ys"
  by (simp add: is_ranking_iff sorted_wrt_take sort_by_count_sorted)

lemma comprehension_filter_pair:
  "concat (map (\<lambda>(k, v). if P k v then [f k v] else []) xs) =
     map (\<lambda>(k, v). f k v) (filter (\<lambda>(k, v). P k v) xs)"
  by (induction xs) auto

lemma comprehension_filter:
  "concat (map (\<lambda>x. if P x then [f x] else []) xs) = map f (filter P xs)"
  by (induction xs) simp_all

lemma dm_counts_eq: "dm_counts chans = channel_candidates (\<lambda>c. c_type c = ''DM'') chans"
  unfolding dm_counts_def channel_candidates_def by (rule comprehension_filter)

lemma gdm_counts_eq: "gdm_counts chans = channel_candidates (\<lambda>c. c_type c = ''GROUP_DM'') chans"
  unfolding gdm_counts_def channel_candidates_def by (rule comprehension_filter)

lemma ch_counts_eq: "ch_counts chans = server_channel_candidates chans"
  unfolding ch_counts_def server_channel_candidates_def is_server_channel_def conj_assoc
  by (rule comprehension_filter)

lemma server_msgs_snoc:
  "server_msgs (chans @ [c]) =
     (if is_server_channel c then counter_add (c_group c) (message_count c) (server_msgs chans)
      else server_msgs chans)"
  by (simp add: server_msgs_def)

lemma keys_counter_add:
  "map fst (counter_add k n c) = (if k \<in> set (map fst c) then map fst c else map fst c @ [k])"
  by (induction c) force+

lemma first_occurrences_snoc:
  "first_occurrences (xs @ [x]) =
     (if x \<in> set xs then first_occurrences xs else first_occurrences xs @ [x])"
  by (simp add: first_occurrences_def)

lemma set_first_occurrences [simp]: "set (first_occurrences xs) = set xs"
  by (simp add: first_occurrences_def)

lemma distinct_first_occurrences [simp]: "distinct (first_occurrences xs)"
  by (simp add: first_occurrences_def)

lemma server_msgs_keys:
  "map fst (server_msgs chans) = first_occurrences (map c_group [c \<leftarrow> chans. is_server_channel c])"
proof (induction chans rule: rev_induct)
  case Nil
  show ?case by (simp add: server_msgs_def first_occurrences_def)
next
  case (snoc c chans)
  then show ?case
    by (simp add: server_msgs_snoc keys_counter_add first_occurrences_snoc)
qed

lemma server_msgs_get: "counter_get (server_msgs chans) g = server_total chans g"
proof (induction chans rule: rev_induct)
  case Nil
  show ?case by (simp add: server_msgs_def server_total_def)
next
  case (snoc c chans)
  then show ?case
    by (auto simp: server_msgs_snoc counter_get_add server_total_def)
qed

lemma counter_get_distinct:
  "distinct (map fst c) \<Longrightarrow> (k, v) \<in> set c \<Longrightarrow> counter_get c k = v"
  by (simp add: counter_get_def)

lemma server_msgs_eq:
  "server_msgs chans =
     map (\<lambda>g. (g, server_total chans g))
       (first_occurrences (map c_group [c \<leftarrow> chans. is_server_channel c]))"
proof -
  have d: "distinct (map fst (server_msgs chans))"
    unfolding server_msgs_keys by simp
  have "server_msgs chans = map (\<lambda>kv. (fst kv, server_total chans (fst kv))) (server_msgs chans)"
  proof (rule map_idI [symmetric])
    fix kv assume "kv \<in> set (server_msgs chans)"
    then have "(fst kv, snd kv) \<in> set (server_msgs chans)" by simp
    from counter_get_distinct [OF d this] have "snd kv = server_total chans (fst kv)"
      unfolding server_msgs_get by simp
    then show "(fst kv, server_total chans (fst kv)) = kv" by (cases kv) simp
  qed
  also have "\<dots> = map (\<lambda>g. (g, server_total chans g)) (map fst (server_msgs chans))"
    by (simp add: comp_def)
  finally show ?thesis unfolding server_msgs_keys by simp
qed

lemma is_server_channel_eq:
  "is_server_channel = (\<lambda>c. c_type c \<noteq> ''DM'' \<and> c_type c \<noteq> ''GROUP_DM'')"
  by (simp add: fun_eq_iff is_server_channel_def)

lemma server_counts_eq: "server_counts chans = server_candidates chans"
proof -
  have "server_counts chans =
      map (\<lambda>(k, v). \<lparr>name = k, count = v\<rparr>) [(k, v) \<leftarrow> server_msgs chans. 0 < v]"
    unfolding server_counts_def
    by (rule comprehension_filter_pair [of "\<lambda>k v. 0 < v" "\<lambda>k v. \<lparr>name = k, count = v\<rparr>"])
  also have "\<dots> = server_candidates chans"
    unfolding server_candidates_def
    by (subst server_msgs_eq) (simp add: filter_map comp_def is_server_channel_eq)
  finally show ?thesis .
qed

lemma positive_channel_candidates: "e \<in> set (channel_candidates P chans) \<Longrightarrow> count e > 0"
  by (auto simp: channel_candidates_def)

lemma positive_server_channel_candidates:
  "e \<in> set (server_channel_candidates chans) \<Longrightarrow> count e > 0"
  by (auto simp: server_channel_candidates_def)

lemma positive_server_candidates: "e \<in> set (server_candidates chans) \<Longrightarrow> count e > 0"
  by (auto simp: server_candidates_def)

lemma server_candidates_total:
  "e \<in> set (server_candidates chans) \<Longrightarrow> count e = server_total chans (name e)"
  by (auto simp: server_candidates_def)

lemma channel_loop_blocks:
  "channel_loop zf index cdirs (chans, msgs) = (chans', msgs')
   \<Longrightarrow> map origin msgs = concat (map block chans)
   \<Longrightarrow> map origin msgs' = concat (map block chans')"
proof (induction cdirs arbitrary: chans msgs)
  case Nil
  then show ?case by simp
next
  case (Cons cdir cdirs)
  show ?case
  proof (cases "load_meta zf cdir")
    case None
    with Cons.prems(1) have "channel_loop zf index cdirs (chans, msgs) = (chans', msgs')"
      by simp
    from Cons.IH [OF this Cons.prems(2)] show ?thesis .
  next
    case (Some meta)
    obtain display grp where r: "resolve (get_or (meta_type meta) ''UNKNOWN'')
        (get_or (meta_name meta) [])
        (case meta_guild meta of None \<Rightarrow> [] | Some guild \<Rightarrow> get_or (g_name guild) [])
        (drop 1 cdir) (get_or (index (drop 1 cdir)) []) = (display, grp)"
      by (cases "resolve (get_or (meta_type meta) ''UNKNOWN'')
        (get_or (meta_name meta) [])
        (case meta_guild meta of None \<Rightarrow> [] | Some guild \<Rightarrow> get_or (g_name guild) [])
        (drop 1 cdir) (get_or (index (drop 1 cdir)) [])") auto
    let ?c = "\<lparr>c_id = drop 1 cdir, c_name = display, c_group = grp,
                c_type = get_or (meta_type meta) ''UNKNOWN'',
                message_count = length (load_messages zf cdir),
                recipients = get_or (meta_recipients meta) []\<rparr>"
    let ?ms = "map (tag display grp (get_or (meta_type meta) ''UNKNOWN'')) (load_messages zf cdir)"
    from Cons.prems(1) Some r
    have "channel_loop zf index cdirs (chans @ [?c], msgs @ ?ms) = (chans', msgs')"
      by (simp add: Let_def)
    moreover have "map origin ?ms = block ?c"
      by (simp add: block_def origin_def tag_def comp_def map_replicate_const)
    then have "map origin (msgs @ ?ms) = concat (map block (chans @ [?c]))"
      using Cons.prems(2) by simp
    ultimately show ?thesis by (rule Cons.IH)
  qed
qed

lemma parse_package_blocks:
  assumes "parse_package container = Inr data"
  shows "map origin (messages data) = concat (map block (channels data))"
  using assms channel_loop_blocks [where chans = "[]" and msgs = "[]", simplified]
  by (auto simp: parse_package_def Let_def split: option.splits sum.splits prod.splits)

lemma parse_tie_archive: "parse_package (Some tie_archive) = Inr tie_data"
  by (simp add: parse_package_def load_index_def load_user_def tie_archive_def
      channel_dirs_def startswith_def endswith_def second_component_def load_meta_def
      load_messages_def get_or_def resolve_def contains_def split1_def or_else_def tag_def
      tie_data_def hello_in_def no_user_def Let_def)

lemma tie_servers:
  "top_servers_of (channels tie_data) = [\<lparr>name = ''S1'', count = 1\<rparr>, \<lparr>name = ''S2'', count = 1\<rparr>]"
  by (simp add: top_servers_of_def sort_by_count_def server_counts_def server_msgs_def
      tie_data_def is_server_channel_def)

lemma tie_stream: "servers_in_stream (messages tie_data) = [''S2'', ''S1'']"
  by (simp add: servers_in_stream_def first_occurrences_def tie_data_def hello_in_def)

lemma tie_stats: "\<exists>s. compute_stats tie_data = Inr s"
  by (simp add: compute_stats_def msg_dates_def tie_data_def hello_in_def timestamp_of_def
      get_or_def streak_empty Let_def)

text \<open>
  C3 as stated fails for the server ranking: the servers are collected from the channel
  summaries (line 141), where a server channel without messages already enters its server.
  In the archive \<open>tie_archive\<close> the first channel, of server S1, has no messages; the
  stream meets S2 first and S1 second, both servers have 1 message, and the ranking puts
  S1 before S2.
\<close>

theorem server_tie_counterexample:
  "parse_package (Some tie_archive) = Inr tie_data
   \<and> servers_in_stream (messages tie_data) = [''S2'', ''S1'']
   \<and> map_sum id top_servers (compute_stats tie_data) =
       Inr [\<lparr>name = ''S1'', count = 1\<rparr>, \<lparr>name = ''S2'', count = 1\<rparr>]"
proof -
  from tie_stats obtain s where s: "compute_stats tie_data = Inr s" ..
  from compute_stats_fields(13) [OF s] have "top_servers s = top_servers_of (channels tie_data)" .
  with s tie_servers parse_tie_archive tie_stream show ?thesis by simp
qed

text \<open>
  C3, amended. Each of the four ranking lists is the ranking of its candidates, cut to the
  first 25, 15, 20 and 20 entries: the candidates in order of non-increasing count, the
  candidates of equal count in the order of the channel summaries. The candidates are the
  channels of type \<open>DM\<close>, the channels of type \<open>GROUP_DM\<close> and the server channels (of any
  other type) that have a count above 0, and, for the server ranking, the groups of the
  server channels, each at the place of its first server channel whether or not that
  channel has messages, with the sum of the message counts of the server channels of the
  group, when the sum is above 0. So every list holds only entries with a count above 0,
  is sorted by non-increasing count and has at most 25, 15, 20 and 20 entries. These are
  the lists that \<open>compute_stats\<close> returns. In what \<open>parse_package\<close> returns, the order of
  the channel summaries is the order in which the channels' messages follow one another
  in the unified stream.
\<close>

theorem rankings:
  "is_ranking 25 (channel_candidates (\<lambda>c. c_type c = ''DM'') chans) (top_dms_of chans)
   \<and> is_ranking 15 (channel_candidates (\<lambda>c. c_type c = ''GROUP_DM'') chans)
         (top_group_dms_of chans)
   \<and> is_ranking 20 (server_candidates chans) (top_servers_of chans)
   \<and> is_ranking 20 (server_channel_candidates chans) (top_channels_of chans)
   \<and> (\<forall>e \<in> set (top_dms_of chans). count e > 0)
   \<and> (\<forall>e \<in> set (top_group_dms_of chans). count e > 0)
   \<and> (\<forall>e \<in> set (top_servers_of chans). count e > 0)
   \<and> (\<forall>e \<in> set (top_channels_of chans). count e > 0)
   \<and> sorted_wrt (\<lambda>a b. count a \<ge> count b) (top_dms_of chans)
   \<and> sorted_wrt (\<lambda>a b. count a \<ge> count b) (top_group_dms_of chans)
   \<and> sorted_wrt (\<lambda>a b. count a \<ge> count b) (top_servers_of chans)
   \<and> sorted_wrt (\<lambda>a b. count a \<ge> count b) (top_channels_of chans)
   \<and> length (top_dms_of chans) \<le> 25 \<and> length (top_group_dms_of chans) \<le> 15
   \<and> length (top_servers_of chans) \<le> 20 \<and> length (top_channels_of chans) \<le> 20
   \<and> (\<forall>e \<in> set (top_servers_of chans). count e = server_total chans (name e))
   \<and> (\<forall>s. compute_stats data = Inr s \<longrightarrow>
          top_dms s = top_dms_of (channels data)
          \<and> top_group_dms s = top_group_dms_of (channels data)
          \<and> top_servers s = top_servers_of (channels data)
          \<and> top_channels s = top_channels_of (channels data))
   \<and> (parse_package container = Inr data \<longrightarrow>
          map origin (messages data) = concat (map block (channels data)))"
proof -
  have r1: "is_ranking 25 (channel_candidates (\<lambda>c. c_type c = ''DM'') chans) (top_dms_of chans)"
    unfolding top_dms_of_def dm_counts_eq by (simp only: is_ranking_iff)
  have r2: "is_ranking 15 (channel_candidates (\<lambda>c. c_type c = ''GROUP_DM'') chans)
      (top_group_dms_of chans)"
    unfolding top_group_dms_of_def gdm_counts_eq by (simp only: is_ranking_iff)
  have r3: "is_ranking 20 (server_candidates chans) (top_servers_of chans)"
    unfolding top_servers_of_def server_counts_eq by (simp only: is_ranking_iff)
  have r4: "is_ranking 20 (server_channel_candidates chans) (top_channels_of chans)"
    unfolding top_channels_of_def ch_counts_eq by (simp only: is_ranking_iff)
  have p1: "\<forall>e \<in> set (top_dms_of chans). count e > 0"
    using is_ranking_subset [OF r1] positive_channel_candidates by blast
  have p2: "\<forall>e \<in> set (top_group_dms_of chans). count e > 0"
    using is_ranking_subset [OF r2] positive_channel_candidates by blast
  have p3: "\<forall>e \<in> set (top_servers_of chans). count e > 0"
    using is_ranking_subset [OF r3] positive_server_candidates by blast
  have p4: "\<forall>e \<in> set (top_channels_of chans). count e > 0"
    using is_ranking_subset [OF r4] positive_server_channel_candidates by blast
  have t: "\<forall>e \<in> set (top_servers_of chans). count e = server_total chans (name e)"
    using is_ranking_subset [OF r3] server_candidates_total by blast
  have c: "\<forall>s. compute_stats data = Inr s \<longrightarrow>
          top_dms s = top_dms_of (channels data)
          \<and> top_group_dms s = top_group_dms_of (channels data)
          \<and> top_servers s = top_servers_of (channels data)
          \<and> top_channels s = top_channels_of (channels data)"
    using compute_stats_fields(11-14) [of data] by blast
  have b: "parse_package container = Inr data \<longrightarrow>
          map origin (messages data) = concat (map block (channels data))"
    using parse_package_blocks [of container data] by blast
  from r1 r2 r3 r4 p1 p2 p3 p4
    is_ranking_sorted [OF r1] is_ranking_sorted [OF r2]
    is_ranking_sorted [OF r3] is_ranking_sorted [OF r4]
    is_ranking_length [OF r1] is_ranking_length [OF r2]
    is_ranking_length [OF r3] is_ranking_length [OF r4] t c b
  show ?thesis by blast
qed

lemma three_channels_servers:
  "top_servers_of three_channels = [\<lparr>name = ''My Server'', count = 7\<rparr>]"
  by (simp add: top_servers_of_def sort_by_count_def server_counts_def server_msgs_def
      three_channels_def is_server_channel_def)

lemma three_channels_dms:
  "top_dms_of three_channels = [\<lparr>name = ''Alex'', count = 4\<rparr>]"
  by (simp add: top_dms_of_def sort_by_count_def dm_counts_def three_channels_def)

lemma three_channels_channels:
  "top_channels_of three_channels =
     [\<lparr>name = ''#random'', count = 5, server = ''My Server''\<rparr>,
      \<lparr>name = ''#general'', count = 2, server = ''My Server''\<rparr>]"
  by (simp add: top_channels_of_def sort_by_count_def ch_counts_def three_channels_def
      is_server_channel_def)

lemma three_channels_candidates:
  "server_channel_candidates three_channels =
     [\<lparr>name = ''#general'', count = 2, server = ''My Server''\<rparr>,
      \<lparr>name = ''#random'', count = 5, server = ''My Server''\<rparr>]"
  by (simp add: server_channel_candidates_def three_channels_def)

lemma tie_candidates:
  "server_candidates (channels tie_data) =
     [\<lparr>name = ''S1'', count = 1\<rparr>, \<lparr>name = ''S2'', count = 1\<rparr>]"
  by (simp add: server_candidates_def first_occurrences_def server_total_def tie_data_def
      is_server_channel_def)

lemma tie_blocks:
  "concat (map block (channels tie_data)) =
     [(''#general'', ''S2'', ''GUILD_TEXT''), (''#general'', ''S1'', ''GUILD_TEXT'')]"
  by (simp add: block_def tie_data_def)

theorem rankings_witness:
  "server_total three_channels ''My Server'' = 7
   \<and> 0 < count (hd (top_dms_of three_channels))
   \<and> 0 < count (hd (top_servers_of three_channels))
   \<and> 0 < count (hd (top_channels_of three_channels))
   \<and> is_ranking 20
         [\<lparr>name = ''#general'', count = 2, server = ''My Server''\<rparr>,
          \<lparr>name = ''#random'', count = 5, server = ''My Server''\<rparr>]
         [\<lparr>name = ''#random'', count = 5, server = ''My Server''\<rparr>,
          \<lparr>name = ''#general'', count = 2, server = ''My Server''\<rparr>]
   \<and> is_ranking 20
         [\<lparr>name = ''S1'', count = 1\<rparr>, \<lparr>name = ''S2'', count = 1\<rparr>]
         [\<lparr>name = ''S1'', count = 1\<rparr>, \<lparr>name = ''S2'', count = 1\<rparr>]
   \<and> (\<exists>s. compute_stats \<lparr>channels = three_channels, messages = [], user = no_user\<rparr> = Inr s
          \<and> top_servers s = [\<lparr>name = ''My Server'', count = 7\<rparr>])
   \<and> parse_package (Some tie_archive) = Inr tie_data
   \<and> map origin (messages tie_data) =
       [(''#general'', ''S2'', ''GUILD_TEXT''), (''#general'', ''S1'', ''GUILD_TEXT'')]"
proof -
  let ?data = "\<lparr>channels = three_channels, messages = [], user = no_user\<rparr>"
  note r = rankings [of three_channels ?data undefined]
  note r' = rankings [of "channels tie_data" tie_data "Some tie_archive"]
  have "\<lparr>name = ''My Server'', count = 7\<rparr> \<in> set (top_servers_of three_channels)"
    by (simp add: three_channels_servers)
  with r have "count \<lparr>name = ''My Server'', count = 7\<rparr> =
      server_total three_channels (name \<lparr>name = ''My Server'', count = 7\<rparr>)"
    by blast
  then have 1: "server_total three_channels ''My Server'' = 7" by simp
  have "hd (top_dms_of three_channels) \<in> set (top_dms_of three_channels)"
    by (simp add: three_channels_dms)
  with r have 2: "0 < count (hd (top_dms_of three_channels))" by blast
  have "hd (top_servers_of three_channels) \<in> set (top_servers_of three_channels)"
    by (simp add: three_channels_servers)
  with r have 3: "0 < count (hd (top_servers_of three_channels))" by blast
  have "hd (top_channels_of three_channels) \<in> set (top_channels_of three_channels)"
    by (simp add: three_channels_channels)
  with r have 4: "0 < count (hd (top_channels_of three_channels))" by blast
  from r have "is_ranking 20 (server_channel_candidates three_channels)
      (top_channels_of three_channels)" by blast
  then have 5: "is_ranking 20
         [\<lparr>name = ''#general'', count = 2, server = ''My Server''\<rparr>,
          \<lparr>name = ''#random'', count = 5, server = ''My Server''\<rparr>]
         [\<lparr>name = ''#random'', count = 5, server = ''My Server''\<rparr>,
          \<lparr>name = ''#general'', count = 2, server = ''My Server''\<rparr>]"
    by (simp only: three_channels_candidates three_channels_channels)
  from r' have "is_ranking 20 (server_candidates (channels tie_data))
      (top_servers_of (channels tie_data))" by blast
  then have 6: "is_ranking 20
         [\<lparr>name = ''S1'', count = 1\<rparr>, \<lparr>name = ''S2'', count = 1\<rparr>]
         [\<lparr>name = ''S1'', count = 1\<rparr>, \<lparr>name = ''S2'', count = 1\<rparr>]"
    by (simp only: tie_candidates tie_servers)
  have "\<exists>s. compute_stats ?data = Inr s"
    by (simp add: compute_stats_def msg_dates_def streak_empty Let_def)
  then obtain s where s: "compute_stats ?data = Inr s" ..
  with r have "top_servers s = top_servers_of (channels ?data)" by blast
  then have 7: "top_servers s = [\<lparr>name = ''My Server'', count = 7\<rparr>]"
    by (simp add: three_channels_servers)
  from r' parse_tie_archive
  have "map origin (messages tie_data) = concat (map block (channels tie_data))" by blast
  then have 8: "map origin (messages tie_data) =
       [(''#general'', ''S2'', ''GUILD_TEXT''), (''#general'', ''S1'', ''GUILD_TEXT'')]"
    by (simp only: tie_blocks)
  from 1 2 3 4 5 6 7 8 s parse_tie_archive show ?thesis by blast
qed

section \<open>Messages whose timestamp does not parse\<close>




























lemma strptime_date_someday: "strptime_date ''someday'' = Inl ValueError"
  by (simp add: strptime_defs)

lemma someday_dates:
  "sort (msg_dates [stamped ''2024-01-01 10:00:00'', stamped ''someday'']) =
     [''2024-01-01'', ''someday'']"
  by (simp add: msg_dates_def stamped_def timestamp_of_def get_or_def)

text \<open>
  The scan for the longest streak parses the days with \<open>strptime\<close> outside any handler
  (lines 272 and 273): with two days of which one is not a date, \<open>compute_stats\<close> raises
  \<open>ValueError\<close>.
\<close>

lemma unparsable_day_raises:
  "compute_stats (stream [stamped ''2024-01-01 10:00:00'', stamped ''someday'']) =
     Inl ValueError"
  by (simp add: compute_stats_def stream_def someday_dates longest_streak_scan_def
      strptime_date_2024_01_01 strptime_date_someday Let_def)








end
